theory Spec2Isabelle
  imports Complex_Main
begin

section \<open>Data model\<close>

text \<open>
  The repository holds two Flask applications. The report-generator application
  (\<^verbatim>\<open>Major_Project/ReportGenerator-for-LLMBasedMCQGenerator/app.py\<close>) keeps a
  ledger \<^verbatim>\<open>session['user_answers']\<close> and recomputes the score in \<^verbatim>\<open>results\<close>;
  its functions keep their source names below. The older application
  (\<^verbatim>\<open>project_files/app.py\<close>) keeps a running counter \<^verbatim>\<open>session['score']\<close>;
  its functions carry the prefix \<open>pf_\<close>.

  A question is a Python dict used as a struct. A key the source reads by subscript
  (\<^verbatim>\<open>question['correct_answer']\<close>) is a field of the record; a key the source reads
  with \<^verbatim>\<open>.get\<close> is an optional field, \<open>None\<close> standing for a missing key
  (the key \<^verbatim>\<open>'chapter'\<close> is the field \<open>chapter_name\<close>, the key \<^verbatim>\<open>'question'\<close> the
  field \<open>question_text\<close>).
  Values of \<^verbatim>\<open>time.time()\<close> are taken as real numbers; the accuracy of
  \<^verbatim>\<open>results\<close> is computed in floats, with the rounding of every operation.
\<close>

record question =
  chapter_name :: "string option"
  subject :: "string option"
  question_text :: string
  options :: "(string \<times> string) list"
  correct_answer :: string
  solution :: "string option"

record answer_info =
  user_answer :: "string option"
  is_correct :: bool

text \<open>
  The Flask session of the report-generator application. Every key can be absent
  (\<^verbatim>\<open>'questions' not in session\<close>, \<^verbatim>\<open>session.pop\<close>), so every field is optional.
\<close>

record session =
  questions :: "question list option"
  score :: "int option"
  start_time :: "real option"
  timed_test :: "bool option"
  user_answers :: "(string \<rightharpoonup> answer_info) option"
  user_id :: "string option"
  guest_id :: "string option"

datatype error =
  SessionExpired
  | InvalidIndex
  | KeyError string
  | IndexError
  | ValueError
  | ZeroDivisionError
  | OverflowError

text \<open>
  The JSON body of a \<^verbatim>\<open>/check_answer\<close> request. Both keys are read with \<^verbatim>\<open>.get\<close>, so
  each can be missing; a value that is present is taken to have the type the interface
  gives it, a string for \<^verbatim>\<open>selected_option\<close> and an integer for \<^verbatim>\<open>question_index\<close>.
\<close>

record answer_request =
  selected_option :: "string option"
  question_index :: "int option"

record answer_response =
  r_is_correct :: bool
  r_correct_answer :: string
  r_solution :: string

subsection \<open>Python's \<^verbatim>\<open>str\<close> on integers\<close>

definition digit_char :: "nat \<Rightarrow> char" where
  "digit_char d = char_of (48 + d)"

fun str_nat :: "nat \<Rightarrow> string" where
  "str_nat n =
     (if n < 10 then [digit_char n] else str_nat (n div 10) @ [digit_char (n mod 10)])"

declare str_nat.simps [simp del]

definition str :: "int \<Rightarrow> string" where
  "str i = (if i < 0 then CHR ''-'' # str_nat (nat (- i)) else str_nat (nat i))"

text \<open>Reading a decimal numeral back; used only to show that \<open>str\<close> is injective.\<close>

definition digit_val :: "char \<Rightarrow> nat" where
  "digit_val c = of_char c - 48"

definition nat_of_digits :: "string \<Rightarrow> nat" where
  "nat_of_digits cs = foldl (\<lambda>a c. 10 * a + digit_val c) 0 cs"

subsection \<open>Python list operations\<close>

text \<open>\<^verbatim>\<open>xs[:n]\<close>: a negative \<open>n\<close> counts from the end.\<close>

definition slice_to :: "'a list \<Rightarrow> int \<Rightarrow> 'a list" where
  "slice_to xs n =
     (if 0 \<le> n then take (nat n) xs else take (nat (int (length xs) + n)) xs)"

text \<open>\<^verbatim>\<open>xs[i]\<close> and \<^verbatim>\<open>xs[i] = v\<close>: a negative index counts from the end, an index out
  of range raises \<^verbatim>\<open>IndexError\<close>.\<close>

definition py_index :: "nat \<Rightarrow> int \<Rightarrow> nat option" where
  "py_index len i =
     (if 0 \<le> i \<and> i < int len then Some (nat i)
      else if i < 0 \<and> - int len \<le> i then Some (nat (int len + i))
      else None)"

definition py_getitem :: "'a list \<Rightarrow> int \<Rightarrow> error + 'a" where
  "py_getitem xs i =
     (case py_index (length xs) i of None \<Rightarrow> Inl IndexError | Some j \<Rightarrow> Inr (xs ! j))"

definition py_setitem :: "'a list \<Rightarrow> int \<Rightarrow> 'a \<Rightarrow> error + 'a list" where
  "py_setitem xs i v =
     (case py_index (length xs) i of None \<Rightarrow> Inl IndexError | Some j \<Rightarrow> Inr (xs[j := v]))"

text \<open>
  \<^verbatim>\<open>round(x)\<close>: the nearest integer, a tie going to the even one.
\<close>

definition py_round :: "real \<Rightarrow> int" where
  "py_round x =
     (let f = \<lfloor>x\<rfloor>; d = x - real_of_int f
      in if d < 1 / 2 then f else if 1 / 2 < d then f + 1 else if even f then f else f + 1)"

text \<open>
  A Python \<^verbatim>\<open>float\<close> is an IEEE 754 binary64 number, and every arithmetic operation on
  floats gives the exact result rounded to the nearest such number, a tie going to the
  even significand. \<open>binary64 x\<close> is that rounding of the real \<open>x\<close>: the significand has
  53 bits, so the last place of a number between \<open>2 ^ k\<close> and \<open>2 ^ (k + 1)\<close> is
  \<open>2 ^ (k - 52)\<close>, and no last place is below \<open>2 ^ - 1074\<close> (the subnormal numbers).
  The exponent has no upper limit here. A result that reaches \<open>2 ^ 1024\<close> lies outside the
  format: \<open>py_truediv\<close> raises \<^verbatim>\<open>OverflowError\<close> there, as the division of two Python
  integers does; the product with 100 in \<^verbatim>\<open>results\<close> is at most 100, as is shown below.
\<close>

definition binary64 :: "real \<Rightarrow> real" where
  "binary64 x =
     (if x = 0 then 0
      else let e = max (\<lfloor>log 2 \<bar>x\<bar>\<rfloor> - 52) (- 1074);
               ulp = 2 powr real_of_int e
           in real_of_int (py_round (x / ulp)) * ulp)"

text \<open>\<^verbatim>\<open>a / b\<close> on two integers: the float nearest to the exact quotient.\<close>

definition py_truediv :: "int \<Rightarrow> int \<Rightarrow> error + real" where
  "py_truediv a b =
     (if b = 0 then Inl ZeroDivisionError
      else let v = binary64 (real_of_int a / real_of_int b)
           in if 2 ^ 1024 \<le> \<bar>v\<bar> then Inl OverflowError else Inr v)"

text \<open>\<^verbatim>\<open>round(x, 2)\<close> on a float: the value of \<open>x\<close> is rounded to two decimals, a tie
  going to the even digit, and the decimal is read back as the nearest float.\<close>

definition py_round2 :: "real \<Rightarrow> real" where
  "py_round2 x = binary64 (real_of_int (py_round (x * 100)) / 100)"

text \<open>\<^verbatim>\<open>int(x)\<close>: towards zero.\<close>

definition py_int :: "real \<Rightarrow> int" where
  "py_int x = (if 0 \<le> x then \<lfloor>x\<rfloor> else \<lceil>x\<rceil>)"

section \<open>The report-generator application\<close>

subsection \<open>\<^verbatim>\<open>check_answer\<close>\<close>

text \<open>
  The handler returns the session it leaves behind and either the error it answers with
  or the JSON response. \<^verbatim>\<open>session['user_answers'][...] = ...\<close> subscripts the
  session, so a session without that key raises \<^verbatim>\<open>KeyError\<close>.
\<close>

definition check_answer :: "session \<Rightarrow> answer_request \<Rightarrow> session \<times> (error + answer_response)" where
  "check_answer s data =
     (case questions s of
        None \<Rightarrow> (s, Inl SessionExpired)
      | Some all_questions \<Rightarrow>
          (case question_index data of
             None \<Rightarrow> (s, Inl InvalidIndex)
           | Some qi \<Rightarrow>
               if \<not> (0 \<le> qi \<and> qi < int (length all_questions)) then (s, Inl InvalidIndex)
               else
                 let question = all_questions ! nat qi;
                     is_c = (selected_option data = Some (correct_answer question))
                 in (case user_answers s of
                       None \<Rightarrow> (s, Inl (KeyError ''user_answers''))
                     | Some ua \<Rightarrow>
                         (s\<lparr>user_answers :=
                              Some (ua(str qi \<mapsto> \<lparr>user_answer = selected_option data, is_correct = is_c\<rparr>))\<rparr>,
                          Inr \<lparr>r_is_correct = is_c,
                               r_correct_answer = correct_answer question,
                               r_solution = (case solution question of
                                               None \<Rightarrow> ''Solution not available.''
                                             | Some sol \<Rightarrow> sol)\<rparr>))))"

subsection \<open>\<^verbatim>\<open>results\<close>\<close>

definition SUBJECT_MAP :: "string \<rightharpoonup> string" where
  "SUBJECT_MAP =
     [''Logical Reasoning'' \<mapsto> ''LR'', ''Quantitative Aptitude'' \<mapsto> ''QA'',
      ''Verbal Ability'' \<mapsto> ''VA'']"

record bucket =
  correct :: int
  incorrect :: int
  total :: int

text \<open>The variables the loop of \<^verbatim>\<open>results\<close> updates.\<close>

record tally =
  correct_count :: int
  incorrect_count :: int
  topic_breakdown :: "string \<rightharpoonup> bucket"

text \<open>\<^verbatim>\<open>defaultdict(lambda: {'correct': 0, 'incorrect': 0, 'total': 0})\<close>: reading a
  missing key gives the zero bucket.\<close>

definition bucket_of :: "(string \<rightharpoonup> bucket) \<Rightarrow> string \<Rightarrow> bucket" where
  "bucket_of tb t =
     (case tb t of None \<Rightarrow> \<lparr>correct = 0, incorrect = 0, total = 0\<rparr> | Some b \<Rightarrow> b)"

definition topic_of :: "question \<Rightarrow> string" where
  "topic_of q =
     (let subject_abbr =
            (case subject q of
               None \<Rightarrow> ''Unknown''
             | Some sj \<Rightarrow> (case SUBJECT_MAP sj of None \<Rightarrow> ''Unknown'' | Some a \<Rightarrow> a))
      in subject_abbr @ '' -> '' @ (case chapter_name q of None \<Rightarrow> ''General'' | Some c \<Rightarrow> c))"

definition results_step :: "(string \<rightharpoonup> answer_info) \<Rightarrow> nat \<Rightarrow> question \<Rightarrow> tally \<Rightarrow> tally" where
  "results_step ua i q t =
     (let topic = topic_of q;
          tb = topic_breakdown t;
          b = bucket_of tb topic;
          b1 = b\<lparr>total := total b + 1\<rparr>;
          tb1 = tb(topic \<mapsto> b1)
      in case ua (str (int i)) of
           None \<Rightarrow> t\<lparr>topic_breakdown := tb1\<rparr>
         | Some answer_info \<Rightarrow>
             if is_correct answer_info
             then t\<lparr>correct_count := correct_count t + 1,
                    topic_breakdown := tb1(topic \<mapsto> b1\<lparr>correct := correct b1 + 1\<rparr>)\<rparr>
             else t\<lparr>incorrect_count := incorrect_count t + 1,
                    topic_breakdown := tb1(topic \<mapsto> b1\<lparr>incorrect := incorrect b1 + 1\<rparr>)\<rparr>)"

text \<open>\<^verbatim>\<open>for i, q in enumerate(all_questions)\<close>, from index \<open>i\<close> on.\<close>

fun results_loop :: "(string \<rightharpoonup> answer_info) \<Rightarrow> nat \<Rightarrow> question list \<Rightarrow> tally \<Rightarrow> tally" where
  "results_loop ua i [] t = t"
| "results_loop ua i (q # qs) t = results_loop ua (Suc i) qs (results_step ua i q t)"

definition tally0 :: tally where
  "tally0 = \<lparr>correct_count = 0, incorrect_count = 0, topic_breakdown = Map.empty\<rparr>"

text \<open>\<^verbatim>\<open>accuracy = (score / total * 100) if total > 0 else 0\<close>: the quotient is a float,
  and so is its product with 100.\<close>

definition accuracy_of :: "int \<Rightarrow> int \<Rightarrow> error + real" where
  "accuracy_of sc tot =
     (if tot > 0
      then (case py_truediv sc tot of Inl e \<Rightarrow> Inl e | Inr v \<Rightarrow> Inr (binary64 (v * 100)))
      else Inr 0)"

record user =
  uid :: string
  email :: string

record report_data =
  rd_student_name :: string
  rd_score :: int
  rd_total_questions :: int
  rd_accuracy :: real
  rd_correct_count :: int
  rd_incorrect_count :: int
  rd_unanswered_count :: int
  rd_total_time_taken :: int
  rd_topic_breakdown :: "string \<rightharpoonup> bucket"

datatype results_page =
  RedirectIndex
  | ResultsPage int int report_data

text \<open>
  The handler takes the session, the clock reading and \<^verbatim>\<open>g.user\<close>. The Firestore
  write sits in a \<^verbatim>\<open>try\<close> whose handler only prints, and touches neither the session
  nor the report, so it has no part in the model.
\<close>

definition results :: "session \<Rightarrow> real \<Rightarrow> user option \<Rightarrow> session \<times> (error + results_page)" where
  "results s now g_user =
     (case questions s of
        None \<Rightarrow> (s, Inr RedirectIndex)
      | Some all_questions \<Rightarrow>
          let ua = (case user_answers s of None \<Rightarrow> Map.empty | Some m \<Rightarrow> m);
              t = results_loop ua 0 all_questions tally0;
              sc = correct_count t;
              tot = int (length all_questions)
          in (case accuracy_of sc tot of
                Inl e \<Rightarrow> (s, Inl e)
              | Inr accuracy \<Rightarrow>
                  let total_time_taken = now - (case start_time s of None \<Rightarrow> 0 | Some st \<Rightarrow> st);
                      rd = \<lparr>rd_student_name = (case g_user of None \<Rightarrow> ''Guest'' | Some u \<Rightarrow> email u),
                            rd_score = sc,
                            rd_total_questions = tot,
                            rd_accuracy = py_round2 accuracy,
                            rd_correct_count = correct_count t,
                            rd_incorrect_count = incorrect_count t,
                            rd_unanswered_count = tot - (correct_count t + incorrect_count t),
                            rd_total_time_taken = py_round total_time_taken,
                            rd_topic_breakdown = topic_breakdown t\<rparr>
                  in (s\<lparr>questions := None, user_answers := None,
                        start_time := None, timed_test := None\<rparr>,
                      Inr (ResultsPage sc tot rd))))"

subsection \<open>\<^verbatim>\<open>quiz\<close>\<close>

datatype quiz_page =
  QuizRedirectIndex
  | QuizPage "question list" int bool "real option"

text \<open>The page carries \<^verbatim>\<open>questions\<close>, \<^verbatim>\<open>total_questions\<close>, \<^verbatim>\<open>timed_test\<close> and
  \<^verbatim>\<open>time_left\<close>. The handler writes nothing to the session.\<close>

definition quiz :: "session \<Rightarrow> real \<Rightarrow> session \<times> (error + quiz_page)" where
  "quiz s now =
     (case questions s of
        None \<Rightarrow> (s, Inr QuizRedirectIndex)
      | Some all_questions \<Rightarrow>
          if (case timed_test s of None \<Rightarrow> False | Some b \<Rightarrow> b)
          then (case start_time s of
                  None \<Rightarrow> (s, Inl (KeyError ''start_time''))
                | Some st \<Rightarrow>
                    let elapsed = now - st;
                        total_time = int (length all_questions) * 60;
                        time_left = max 0 (real_of_int total_time - elapsed)
                    in (s, Inr (QuizPage all_questions (int (length all_questions)) True (Some time_left))))
          else (s, Inr (QuizPage all_questions (int (length all_questions))
                          (case timed_test s of None \<Rightarrow> False | Some b \<Rightarrow> b) None)))"

subsection \<open>\<^verbatim>\<open>generate_questions\<close> and \<^verbatim>\<open>get_default_questions\<close>\<close>

definition default_lr :: question where
  "default_lr =
     \<lparr>chapter_name = Some ''Syllogisms'', subject = None,
      question_text = ''If all Bloops are Razzies and all Razzies are Lazzies, then all Bloops are definitely Lazzies?'',
      options = [(''A'', ''True''), (''B'', ''False''), (''C'', ''Uncertain''), (''D'', ''None of the above'')],
      correct_answer = ''A'',
      solution = Some ''This is a case of transitive relation. If A implies B and B implies C, then A implies C. So, the statement is True.''\<rparr>"

definition default_qa :: question where
  "default_qa =
     \<lparr>chapter_name = Some ''Speed, Time & Distance'', subject = None,
      question_text = ''If a train travels 300 km in 5 hours, what is its average speed?'',
      options = [(''A'', ''50 km/h''), (''B'', ''60 km/h''), (''C'', ''70 km/h''), (''D'', ''80 km/h'')],
      correct_answer = ''B'',
      solution = Some ''Average Speed = Total Distance / Total Time. Speed = 300 km / 5 hours = 60 km/h.''\<rparr>"

definition default_va :: question where
  "default_va =
     \<lparr>chapter_name = Some ''Synonyms'', subject = None,
      question_text = ''Choose the correct synonym for 'Benevolent'' @ [CHR 0x27],
      options = [(''A'', ''Cruel''), (''B'', ''Kind''), (''C'', ''Selfish''), (''D'', ''Greedy'')],
      correct_answer = ''B'',
      solution = Some '''Benevolent' means well-meaning and kindly. 'Kind' is the closest synonym.''\<rparr>"

definition defaults :: "string \<rightharpoonup> question list" where
  "defaults =
     [''Logical Reasoning'' \<mapsto> [default_lr], ''Quantitative Aptitude'' \<mapsto> [default_qa],
      ''Verbal Ability'' \<mapsto> [default_va]]"

definition get_default_questions :: "string \<Rightarrow> int \<Rightarrow> question list" where
  "get_default_questions sj num_questions =
     (let subject_questions = (case defaults sj of None \<Rightarrow> [] | Some qs \<Rightarrow> qs)
      in slice_to subject_questions num_questions)"

text \<open>
  What the body of the \<^verbatim>\<open>try\<close> produced before the length test: an exception of the
  client call, of \<^verbatim>\<open>json.loads\<close> or of \<^verbatim>\<open>.get\<close> (\<open>Raised\<close>), or the list under the
  key \<^verbatim>\<open>'questions'\<close> (\<open>Delivered\<close>, the empty list when the key is missing).
\<close>

datatype upstream =
  Raised
  | Delivered "question list"

definition generate_questions :: "upstream \<Rightarrow> string \<Rightarrow> string \<Rightarrow> int \<Rightarrow> question list" where
  "generate_questions up sj difficulty num_questions =
     (case up of
        Raised \<Rightarrow> get_default_questions sj num_questions
      | Delivered qs \<Rightarrow>
          let qs1 = (if int (length qs) < num_questions
                     then qs @ get_default_questions sj (num_questions - int (length qs))
                     else qs)
          in slice_to qs1 num_questions)"

subsection \<open>\<^verbatim>\<open>index\<close>\<close>

text \<open>\<^verbatim>\<open>q['subject'] = subject; q.setdefault('chapter', 'General')\<close>.\<close>

definition tag_question :: "string \<Rightarrow> question \<Rightarrow> question" where
  "tag_question sj q =
     q\<lparr>subject := Some sj,
       chapter_name := (case chapter_name q of None \<Rightarrow> Some ''General'' | Some c \<Rightarrow> Some c)\<rparr>"

text \<open>
  The loop \<^verbatim>\<open>for i, subject in enumerate(selected_subjects)\<close>, from index \<open>i\<close> on. It
  returns the calls of \<^verbatim>\<open>generate_questions\<close> it made, as pairs of subject and
  \<^verbatim>\<open>q_count\<close> in the order made, and the list \<^verbatim>\<open>questions\<close>. The first argument gives
  the outcome of the upstream call of the \<open>i\<close>-th iteration.
\<close>

fun index_loop ::
  "(nat \<Rightarrow> string \<Rightarrow> string \<Rightarrow> int \<Rightarrow> upstream) \<Rightarrow> string \<Rightarrow> int \<Rightarrow> int \<Rightarrow> nat \<Rightarrow> string list
     \<Rightarrow> (string \<times> int) list \<times> question list" where
  "index_loop llm difficulty questions_per_subject remaining_questions i [] = ([], [])"
| "index_loop llm difficulty questions_per_subject remaining_questions i (sj # rest) =
     (let q_count = questions_per_subject + (if int i < remaining_questions then 1 else 0);
          here = (if q_count > 0
                  then ([(sj, q_count)],
                        map (tag_question sj)
                          (generate_questions (llm i sj difficulty q_count) sj difficulty q_count))
                  else ([], []));
          later = index_loop llm difficulty questions_per_subject remaining_questions (Suc i) rest
      in (fst here @ fst later, snd here @ snd later))"

text \<open>The block \<^verbatim>\<open>questions = []; if selected_subjects: ...\<close> of \<^verbatim>\<open>index\<close>.\<close>

definition index_questions ::
  "(nat \<Rightarrow> string \<Rightarrow> string \<Rightarrow> int \<Rightarrow> upstream) \<Rightarrow> string \<Rightarrow> int \<Rightarrow> string list
     \<Rightarrow> (string \<times> int) list \<times> question list" where
  "index_questions llm difficulty num_questions selected_subjects =
     (if selected_subjects \<noteq> []
      then index_loop llm difficulty
             (num_questions div int (length selected_subjects))
             (num_questions mod int (length selected_subjects)) 0 selected_subjects
      else ([], []))"

text \<open>The form of the quiz set-up page. \<^verbatim>\<open>int(...)\<close> of a field that is no numeral
  raises \<^verbatim>\<open>ValueError\<close>.\<close>

datatype num_field =
  Absent
  | Unparsable
  | Parsed int

record form =
  f_subjects :: "string list"
  f_difficulty :: "string option"
  f_num_questions :: num_field
  f_timed_test :: "string option"

text \<open>What a request finds outside the session: the identity service, the upstream
  model, the outcome of \<^verbatim>\<open>random.shuffle\<close> and the clock.\<close>

record env =
  e_get_user :: "string \<Rightarrow> user option"
  e_create_user :: "string option \<Rightarrow> string option \<Rightarrow> string option"
  e_get_user_by_email :: "string option \<Rightarrow> string option"
  e_llm :: "nat \<Rightarrow> string \<Rightarrow> string \<Rightarrow> int \<Rightarrow> upstream"
  e_shuffle :: "question list \<Rightarrow> question list"
  e_now :: real

record g =
  g_user :: "user option"
  g_guest_id :: "string option"

definition truthy :: "string option \<Rightarrow> bool" where
  "truthy v = (case v of None \<Rightarrow> False | Some x \<Rightarrow> x \<noteq> [])"

definition empty_session :: session where
  "empty_session =
     \<lparr>questions = None, score = None, start_time = None, timed_test = None,
      user_answers = None, user_id = None, guest_id = None\<rparr>"

definition load_logged_in_user :: "env \<Rightarrow> session \<Rightarrow> session \<times> g" where
  "load_logged_in_user e s =
     (case user_id s of
        None \<Rightarrow> (s, \<lparr>g_user = None, g_guest_id = guest_id s\<rparr>)
      | Some u_id \<Rightarrow>
          if u_id = [] then (s, \<lparr>g_user = None, g_guest_id = guest_id s\<rparr>)
          else (case e_get_user e u_id of
                  Some u \<Rightarrow> (s, \<lparr>g_user = Some u, g_guest_id = guest_id s\<rparr>)
                | None \<Rightarrow> (empty_session, \<lparr>g_user = None, g_guest_id = guest_id s\<rparr>)))"

datatype index_page =
  RedirectLogin
  | RedirectQuiz

definition index_post :: "env \<Rightarrow> g \<Rightarrow> session \<Rightarrow> form \<Rightarrow> session \<times> (error + index_page)" where
  "index_post e gv s f =
     (if g_user gv = None \<and> \<not> truthy (g_guest_id gv) then (s, Inr RedirectLogin)
      else
        (case f_num_questions f of
           Unparsable \<Rightarrow> (s, Inl ValueError)
         | nf \<Rightarrow>
             let selected_subjects = f_subjects f;
                 difficulty = (case f_difficulty f of None \<Rightarrow> ''Medium'' | Some d \<Rightarrow> d);
                 num_questions = min (case nf of Parsed n \<Rightarrow> n | _ \<Rightarrow> 5) 30;
                 timed = (f_timed_test f = Some ''on'');
                 qs = e_shuffle e (snd (index_questions (e_llm e) difficulty num_questions selected_subjects))
             in (s\<lparr>questions := Some qs, score := Some 0, start_time := Some (e_now e),
                   timed_test := Some timed, user_answers := Some Map.empty\<rparr>,
                 Inr RedirectQuiz)))"

subsection \<open>The routes as a transition system\<close>

datatype request =
  IndexGet
  | IndexPost form
  | QuizGet
  | CheckAnswerPost answer_request
  | ResultsGet
  | ReportPost
  | SignupGet
  | SignupPost "string option" "string option"
  | LoginGet
  | LoginPost "string option"
  | Logout
  | ContinueAsGuest
  | UserHistory

text \<open>One request: the \<^verbatim>\<open>before_request\<close> hook, then the route. Only the session
  left behind is kept. The identity service either finds the user or reports that there
  is none (\<^verbatim>\<open>UserNotFoundError\<close>, after which the hook clears the session).\<close>

definition step :: "env \<Rightarrow> session \<Rightarrow> request \<Rightarrow> session" where
  "step e s r =
     (let (s1, gv) = load_logged_in_user e s
      in case r of
           IndexGet \<Rightarrow> s1
         | IndexPost f \<Rightarrow> fst (index_post e gv s1 f)
         | QuizGet \<Rightarrow> fst (quiz s1 (e_now e))
         | CheckAnswerPost d \<Rightarrow> fst (check_answer s1 d)
         | ResultsGet \<Rightarrow> fst (results s1 (e_now e) (g_user gv))
         | ReportPost \<Rightarrow> s1
         | SignupGet \<Rightarrow> s1
         | SignupPost em pw \<Rightarrow>
             (case e_create_user e em pw of None \<Rightarrow> s1 | Some u \<Rightarrow> s1\<lparr>user_id := Some u\<rparr>)
         | LoginGet \<Rightarrow> s1
         | LoginPost em \<Rightarrow>
             (case e_get_user_by_email e em of None \<Rightarrow> s1 | Some u \<Rightarrow> s1\<lparr>user_id := Some u\<rparr>)
         | Logout \<Rightarrow> empty_session
         | ContinueAsGuest \<Rightarrow> empty_session\<lparr>guest_id := Some (''guest_'' @ str (py_int (e_now e)))\<rparr>
         | UserHistory \<Rightarrow> s1)"

fun run :: "session \<Rightarrow> (env \<times> request) list \<Rightarrow> session" where
  "run s [] = s"
| "run s ((e, r) # rest) = run (step e s r) rest"

definition is_index_post :: "request \<Rightarrow> bool" where
  "is_index_post r = (case r of IndexPost f \<Rightarrow> True | _ \<Rightarrow> False)"

section \<open>The older application (\<^verbatim>\<open>project_files/app.py\<close>)\<close>

text \<open>
  Its \<^verbatim>\<open>index\<close> writes the keys below together with \<^verbatim>\<open>'questions'\<close>, and only
  \<^verbatim>\<open>session.clear()\<close> removes any of them, so a session that has \<^verbatim>\<open>'questions'\<close> has
  them all: the session is \<open>None\<close> (no \<^verbatim>\<open>'questions'\<close>) or a record of them.
\<close>

record pf_quiz =
  pf_questions :: "question list"
  pf_current_question :: int
  pf_score :: int
  pf_timed_test :: bool
  pf_dark_mode :: bool
  pf_start_time :: real
  pf_time_per_question :: int
  pf_answered :: "bool list"
  pf_visited :: "bool list"
  pf_selected_subjects :: "string list"

type_synonym pf_session = "pf_quiz option"

record pf_answer_response =
  pr_is_correct :: bool
  pr_correct_answer :: string
  pr_solution :: string
  pr_score :: int
  pr_total_questions :: int
  pr_answered :: "bool list"
  pr_visited :: "bool list"
  pr_has_next :: bool
  pr_next_question :: "question option"
  pr_question_num :: "int option"
  pr_time_left :: "real option"

text \<open>\<^verbatim>\<open>check_answer\<close> of the older application: the question answered is the one at
  \<^verbatim>\<open>session['current_question']\<close>, and a correct answer adds one to
  \<^verbatim>\<open>session['score']\<close>.\<close>

definition pf_check_answer ::
  "pf_session \<Rightarrow> string option \<Rightarrow> real \<Rightarrow> pf_session \<times> (error + pf_answer_response)" where
  "pf_check_answer s selected now =
     (case s of
        None \<Rightarrow> (s, Inl SessionExpired)
      | Some st \<Rightarrow>
          let current_idx = pf_current_question st;
              qs = pf_questions st
          in (case py_setitem (pf_answered st) current_idx True of
                Inl e \<Rightarrow> (s, Inl e)
              | Inr answered1 \<Rightarrow>
                  let st1 = st\<lparr>pf_answered := answered1\<rparr>
                  in (case py_getitem qs current_idx of
                        Inl e \<Rightarrow> (Some st1, Inl e)
                      | Inr current_question \<Rightarrow>
                          let is_c = (selected = Some (correct_answer current_question));
                              st2 = (if is_c then st1\<lparr>pf_score := pf_score st1 + 1\<rparr> else st1);
                              sol = (case solution current_question of
                                       None \<Rightarrow> ''Solution not available for this question''
                                     | Some x \<Rightarrow>
                                         if x = [] then ''Solution not available for this question''
                                         else x);
                              time_left =
                                (if pf_timed_test st2
                                 then Some (max 0 (real_of_int (int (length qs) * pf_time_per_question st2)
                                                   - (now - pf_start_time st2)))
                                 else None);
                              resp = \<lparr>pr_is_correct = is_c,
                                      pr_correct_answer = correct_answer current_question,
                                      pr_solution = sol,
                                      pr_score = pf_score st2,
                                      pr_total_questions = int (length qs),
                                      pr_answered = pf_answered st2,
                                      pr_visited = pf_visited st2,
                                      pr_has_next = False,
                                      pr_next_question = None,
                                      pr_question_num = None,
                                      pr_time_left = time_left\<rparr>
                          in if current_idx + 1 < int (length qs)
                             then
                               let st3 = st2\<lparr>pf_current_question := pf_current_question st2 + 1\<rparr>
                               in (case py_getitem qs (current_idx + 1) of
                                     Inl e \<Rightarrow> (Some st3, Inl e)
                                   | Inr nq \<Rightarrow>
                                       (Some st3,
                                        Inr (resp\<lparr>pr_has_next := True,
                                                  pr_next_question := Some nq,
                                                  pr_question_num := Some (current_idx + 2)\<rparr>)))
                             else (Some st2, Inr resp))))"

datatype pf_results_page =
  PfRedirectIndex
  | PfResultsPage int int bool bool

text \<open>\<^verbatim>\<open>results\<close> of the older application reports the stored counter and clears the
  session. The page carries \<^verbatim>\<open>score\<close>, \<^verbatim>\<open>total\<close>, \<^verbatim>\<open>timed_out\<close> and \<^verbatim>\<open>dark_mode\<close>.\<close>

definition pf_results :: "pf_session \<Rightarrow> bool \<Rightarrow> pf_session \<times> pf_results_page" where
  "pf_results s timed_out =
     (case s of
        None \<Rightarrow> (s, PfRedirectIndex)
      | Some st \<Rightarrow>
          (None, PfResultsPage (pf_score st) (int (length (pf_questions st))) timed_out (pf_dark_mode st)))"

text \<open>The calls of \<^verbatim>\<open>generate_questions\<close> made by the loop of the older \<^verbatim>\<open>index\<close>, which
  has no test on \<^verbatim>\<open>q_count\<close>.\<close>

fun pf_index_loop :: "int \<Rightarrow> int \<Rightarrow> nat \<Rightarrow> string list \<Rightarrow> (string \<times> int) list" where
  "pf_index_loop questions_per_subject remaining_questions i [] = []"
| "pf_index_loop questions_per_subject remaining_questions i (sj # rest) =
     (sj, questions_per_subject + (if int i < remaining_questions then 1 else 0))
       # pf_index_loop questions_per_subject remaining_questions (Suc i) rest"

definition pf_index_calls :: "int \<Rightarrow> string list \<Rightarrow> (string \<times> int) list" where
  "pf_index_calls num_questions selected_subjects =
     (if selected_subjects \<noteq> []
      then pf_index_loop (num_questions div int (length selected_subjects))
             (num_questions mod int (length selected_subjects)) 0 selected_subjects
      else [])"

section \<open>Notions used to state the properties\<close>

text \<open>What the ledger says about the question at index \<open>j\<close>: answered with a correct
  choice, or answered with an incorrect one. An index with no entry is neither.\<close>

definition answered_correctly :: "(string \<rightharpoonup> answer_info) \<Rightarrow> nat \<Rightarrow> bool" where
  "answered_correctly ua j =
     (case ua (str (int j)) of None \<Rightarrow> False | Some a \<Rightarrow> is_correct a)"

definition answered_incorrectly :: "(string \<rightharpoonup> answer_info) \<Rightarrow> nat \<Rightarrow> bool" where
  "answered_incorrectly ua j =
     (case ua (str (int j)) of None \<Rightarrow> False | Some a \<Rightarrow> \<not> is_correct a)"

text \<open>The score \<^verbatim>\<open>results\<close> hands to its page, when it renders one.\<close>

definition results_score :: "session \<Rightarrow> real \<Rightarrow> user option \<Rightarrow> int option" where
  "results_score s now u =
     (case snd (results s now u) of Inr (ResultsPage sc tot rd) \<Rightarrow> Some sc | _ \<Rightarrow> None)"

text \<open>The report \<^verbatim>\<open>results\<close> builds, when it renders one.\<close>

definition results_report :: "session \<Rightarrow> real \<Rightarrow> user option \<Rightarrow> report_data option" where
  "results_report s now u =
     (case snd (results s now u) of Inr (ResultsPage sc tot rd) \<Rightarrow> Some rd | _ \<Rightarrow> None)"

text \<open>A session that has \<^verbatim>\<open>'questions'\<close> has the keys \<^verbatim>\<open>index\<close> writes with it.\<close>

definition session_keys_together :: "session \<Rightarrow> bool" where
  "session_keys_together s =
     (questions s \<noteq> None \<longrightarrow>
        user_answers s \<noteq> None \<and> start_time s \<noteq> None \<and> timed_test s \<noteq> None)"

section \<open>Example sessions\<close>

definition ex_q1 :: question where
  "ex_q1 =
     \<lparr>chapter_name = Some ''Syllogisms'', subject = Some ''Logical Reasoning'',
      question_text = ''Q1'',
      options = [(''A'', ''a''), (''B'', ''b''), (''C'', ''c''), (''D'', ''d'')],
      correct_answer = ''A'', solution = Some ''S1''\<rparr>"

definition ex_q2 :: question where
  "ex_q2 =
     \<lparr>chapter_name = Some ''Syllogisms'', subject = Some ''Logical Reasoning'',
      question_text = ''Q2'',
      options = [(''A'', ''a''), (''B'', ''b''), (''C'', ''c''), (''D'', ''d'')],
      correct_answer = ''B'', solution = Some ''S2''\<rparr>"

definition ex_q3 :: question where
  "ex_q3 =
     \<lparr>chapter_name = Some ''Ratios'', subject = Some ''Quantitative Aptitude'',
      question_text = ''Q3'',
      options = [(''A'', ''a''), (''B'', ''b''), (''C'', ''c''), (''D'', ''d'')],
      correct_answer = ''C'', solution = None\<rparr>"

text \<open>Question 0 answered correctly, question 1 answered incorrectly, question 2 not
  answered.\<close>

definition ex_ledger :: "string \<rightharpoonup> answer_info" where
  "ex_ledger =
     [''0'' \<mapsto> \<lparr>user_answer = Some ''A'', is_correct = True\<rparr>,
      ''1'' \<mapsto> \<lparr>user_answer = Some ''C'', is_correct = False\<rparr>]"

definition ex_session :: session where
  "ex_session =
     \<lparr>questions = Some [ex_q1, ex_q2, ex_q3], score = Some 0, start_time = Some 1000,
      timed_test = Some False, user_answers = Some ex_ledger, user_id = None,
      guest_id = Some ''guest_1000''\<rparr>"



text \<open>A timed session of five questions started at time 1000.\<close>

definition ex_timed_session :: session where
  "ex_timed_session =
     \<lparr>questions = Some [ex_q1, ex_q2, ex_q3, ex_q1, ex_q2], score = Some 0,
      start_time = Some 1000, timed_test = Some True, user_answers = Some Map.empty,
      user_id = None, guest_id = Some ''guest_1000''\<rparr>"

definition ex_env :: env where
  "ex_env =
     \<lparr>e_get_user = (\<lambda>u. None), e_create_user = (\<lambda>em pw. None),
      e_get_user_by_email = (\<lambda>em. None), e_llm = (\<lambda>i sj d n. Raised),
      e_shuffle = (\<lambda>qs. qs), e_now = 1000\<rparr>"

text \<open>Sessions of the older application: one question and two questions, nothing
  answered yet, and a timed one of five questions.\<close>

definition ex_pf_one :: pf_quiz where
  "ex_pf_one =
     \<lparr>pf_questions = [ex_q1], pf_current_question = 0, pf_score = 0, pf_timed_test = False,
      pf_dark_mode = False, pf_start_time = 1000, pf_time_per_question = 60,
      pf_answered = [False], pf_visited = [True],
      pf_selected_subjects = [''Logical Reasoning'']\<rparr>"

definition ex_pf_two :: pf_quiz where
  "ex_pf_two =
     \<lparr>pf_questions = [ex_q1, ex_q2], pf_current_question = 0, pf_score = 0,
      pf_timed_test = False, pf_dark_mode = False, pf_start_time = 1000,
      pf_time_per_question = 60, pf_answered = [False, False], pf_visited = [True, False],
      pf_selected_subjects = [''Logical Reasoning'']\<rparr>"

definition ex_pf_timed :: pf_quiz where
  "ex_pf_timed =
     \<lparr>pf_questions = [ex_q1, ex_q2, ex_q3, ex_q1, ex_q2], pf_current_question = 0,
      pf_score = 0, pf_timed_test = True, pf_dark_mode = False, pf_start_time = 1000,
      pf_time_per_question = 60, pf_answered = [False, False, False, False, False],
      pf_visited = [True, False, False, False, False],
      pf_selected_subjects = [''Logical Reasoning'', ''Quantitative Aptitude'']\<rparr>"

text \<open>A form that asks for one question of one subject.\<close>

definition ex_form :: form where
  "ex_form =
     \<lparr>f_subjects = [''Logical Reasoning''], f_difficulty = None,
      f_num_questions = Parsed 1, f_timed_test = None\<rparr>"

section \<open>Decimal numerals are read back: \<open>str\<close> is injective on indices\<close>

lemma digit_val_digit_char: "d < 10 \<Longrightarrow> digit_val (digit_char d) = d"
  by (simp add: digit_val_def digit_char_def)

lemma nat_of_digits_snoc: "nat_of_digits (cs @ [c]) = 10 * nat_of_digits cs + digit_val c"
  by (simp add: nat_of_digits_def)

lemma nat_of_digits_str_nat: "nat_of_digits (str_nat n) = n"
proof (induction n rule: str_nat.induct)
  case (1 n)
  show ?case
  proof (cases "n < 10")
    case True
    then show ?thesis
      by (subst str_nat.simps) (simp add: nat_of_digits_def digit_val_digit_char)
  next
    case False
    with 1 have "nat_of_digits (str_nat (n div 10)) = n div 10" by simp
    with False show ?thesis
      by (subst str_nat.simps) (simp add: nat_of_digits_snoc digit_val_digit_char)
  qed
qed

lemma str_int_inj: "str (int i) = str (int j) \<longleftrightarrow> i = j"
proof
  assume "str (int i) = str (int j)"
  then have "str_nat i = str_nat j" by (simp add: str_def)
  then have "nat_of_digits (str_nat i) = nat_of_digits (str_nat j)" by simp
  then show "i = j" by (simp add: nat_of_digits_str_nat)
qed simp

lemma str_0: "str 0 = ''0''"
  by code_simp

lemma str_1: "str 1 = ''1''"
  by code_simp

lemma str_2: "str 2 = ''2''"
  by code_simp

section \<open>What the loop of \<^verbatim>\<open>results\<close> computes\<close>

lemma results_step_correct_count:
  "correct_count (results_step ua i q t) =
     correct_count t + (if answered_correctly ua i then 1 else 0)"
  by (simp add: results_step_def answered_correctly_def Let_def split: option.splits)

lemma results_step_incorrect_count:
  "incorrect_count (results_step ua i q t) =
     incorrect_count t + (if answered_incorrectly ua i then 1 else 0)"
  by (simp add: results_step_def answered_incorrectly_def Let_def split: option.splits)

lemma results_loop_correct_count:
  "correct_count (results_loop ua i qs t) =
     correct_count t + int (length (filter (answered_correctly ua) [i..<i + length qs]))"
proof (induction qs arbitrary: i t)
  case Nil
  then show ?case by simp
next
  case (Cons q qs)
  have "[i..<i + length (q # qs)] = i # [Suc i..<Suc i + length qs]"
    by (subst upt_rec) simp
  then show ?case
    by (simp add: Cons.IH results_step_correct_count)
qed

lemma results_loop_incorrect_count:
  "incorrect_count (results_loop ua i qs t) =
     incorrect_count t + int (length (filter (answered_incorrectly ua) [i..<i + length qs]))"
proof (induction qs arbitrary: i t)
  case Nil
  then show ?case by simp
next
  case (Cons q qs)
  have "[i..<i + length (q # qs)] = i # [Suc i..<Suc i + length qs]"
    by (subst upt_rec) simp
  then show ?case
    by (simp add: Cons.IH results_step_incorrect_count)
qed

lemma bucket_of_results_step:
  "bucket_of (topic_breakdown (results_step ua i q t)) k =
     (let b = bucket_of (topic_breakdown t) k
      in if topic_of q = k
         then \<lparr>correct = correct b + (if answered_correctly ua i then 1 else 0),
               incorrect = incorrect b + (if answered_incorrectly ua i then 1 else 0),
               total = total b + 1\<rparr>
         else b)"
  by (simp add: results_step_def bucket_of_def answered_correctly_def answered_incorrectly_def
      Let_def split: option.splits)

lemma dom_results_step:
  "dom (topic_breakdown (results_step ua i q t)) = insert (topic_of q) (dom (topic_breakdown t))"
  by (auto simp add: results_step_def Let_def split: option.splits if_splits)

lemma dom_results_loop:
  "dom (topic_breakdown (results_loop ua i qs t)) = dom (topic_breakdown t) \<union> topic_of ` set qs"
  by (induction qs arbitrary: i t) (auto simp add: dom_results_step)

lemma bucket_of_results_loop:
  "bucket_of (topic_breakdown (results_loop ua i qs t)) k =
     (let b = bucket_of (topic_breakdown t) k
      in \<lparr>correct = correct b
             + int (length (filter (\<lambda>(j, q). topic_of q = k \<and> answered_correctly ua j) (enumerate i qs))),
           incorrect = incorrect b
             + int (length (filter (\<lambda>(j, q). topic_of q = k \<and> answered_incorrectly ua j) (enumerate i qs))),
           total = total b + int (length (filter (\<lambda>q. topic_of q = k) qs))\<rparr>)"
proof (induction qs arbitrary: i t)
  case Nil
  then show ?case by (simp add: Let_def)
next
  case (Cons q qs)
  show ?case
    by (simp add: Cons.IH bucket_of_results_step Let_def)
qed

text \<open>Changing the predicate at one index changes the count by that index alone.\<close>

lemma count_update:
  assumes "j < n" and "\<And>k. k \<noteq> j \<Longrightarrow> P' k = P k"
  shows "int (length (filter P' [0..<n])) =
           int (length (filter P [0..<n])) - (if P j then 1 else 0) + (if P' j then 1 else 0)"
proof -
  have split: "[0..<n] = [0..<j] @ j # [Suc j..<n]"
  proof -
    have "[0..<j + (n - j)] = [0..<j] @ [j..<j + (n - j)]"
      by (rule upt_add_eq_append) simp
    moreover have "[j..<n] = j # [Suc j..<n]"
      using assms(1) by (rule upt_conv_Cons)
    ultimately show ?thesis using assms(1) by simp
  qed
  have a: "filter P' [0..<j] = filter P [0..<j]"
    by (rule filter_cong) (auto simp add: assms(2))
  have b: "filter P' [Suc j..<n] = filter P [Suc j..<n]"
    by (rule filter_cong) (auto simp add: assms(2))
  show ?thesis
    by (simp add: split a b)
qed

lemma answered_correctly_upd:
  "answered_correctly (ua(str (int j) \<mapsto> a)) k =
     (if k = j then is_correct a else answered_correctly ua k)"
  by (simp add: answered_correctly_def str_int_inj)

lemma answered_incorrectly_upd:
  "answered_incorrectly (ua(str (int j) \<mapsto> a)) k =
     (if k = j then \<not> is_correct a else answered_incorrectly ua k)"
  by (simp add: answered_incorrectly_def str_int_inj)

lemma correct_count_ledger_update:
  assumes "j < length qs"
  shows "correct_count (results_loop (ua(str (int j) \<mapsto> a)) 0 qs t) =
           correct_count (results_loop ua 0 qs t)
             - (if answered_correctly ua j then 1 else 0) + (if is_correct a then 1 else 0)"
  using count_update [of j "length qs" "answered_correctly (ua(str (int j) \<mapsto> a))" "answered_correctly ua"] assms
  by (simp add: results_loop_correct_count answered_correctly_upd)

lemma incorrect_count_ledger_update:
  assumes "j < length qs"
  shows "incorrect_count (results_loop (ua(str (int j) \<mapsto> a)) 0 qs t) =
           incorrect_count (results_loop ua 0 qs t)
             - (if answered_incorrectly ua j then 1 else 0) + (if is_correct a then 0 else 1)"
  using count_update [of j "length qs" "answered_incorrectly (ua(str (int j) \<mapsto> a))" "answered_incorrectly ua"] assms
  by (simp add: results_loop_incorrect_count answered_incorrectly_upd)

section \<open>Rounding to the nearest float\<close>

lemma py_round_le: "y \<le> real_of_int n \<Longrightarrow> py_round y \<le> n"
proof -
  assume a: "y \<le> real_of_int n"
  then have f: "\<lfloor>y\<rfloor> \<le> n" by (simp add: floor_le_iff)
  show ?thesis
  proof (cases "\<lfloor>y\<rfloor> = n")
    case True
    then have "y = real_of_int n" using a by linarith
    then show ?thesis by (simp add: py_round_def)
  next
    case False
    with f have "\<lfloor>y\<rfloor> + 1 \<le> n" by simp
    then show ?thesis by (simp add: py_round_def Let_def)
  qed
qed

lemma py_round_ge: "real_of_int n \<le> y \<Longrightarrow> n \<le> py_round y"
proof -
  assume "real_of_int n \<le> y"
  then have "n \<le> \<lfloor>y\<rfloor>" by (simp add: le_floor_iff)
  then show ?thesis by (simp add: py_round_def Let_def)
qed


lemma binary64_nonneg: "0 \<le> x \<Longrightarrow> 0 \<le> binary64 x"
proof -
  assume x: "0 \<le> x"
  show ?thesis
  proof (cases "x = 0")
    case True
    then show ?thesis by (simp add: binary64_def)
  next
    case False
    define u where "u = 2 powr real_of_int (max (\<lfloor>log 2 \<bar>x\<bar>\<rfloor> - 52) (- 1074))"
    have u: "0 < u" by (simp add: u_def)
    have "real_of_int 0 \<le> x / u" using x u by simp
    then have "0 \<le> py_round (x / u)" by (rule py_round_ge)
    then show ?thesis
      using False u by (simp add: binary64_def Let_def u_def [symmetric])
  qed
qed

lemma binary64_le_int:
  assumes "0 \<le> x" and "x \<le> real_of_int m" and "m \<le> 2 ^ 52"
  shows "binary64 x \<le> real_of_int m"
proof (cases "x = 0")
  case True
  then show ?thesis using assms by (simp add: binary64_def)
next
  case False
  then have x: "0 < x" using assms(1) by simp
  define e where "e = max (\<lfloor>log 2 \<bar>x\<bar>\<rfloor> - 52) (- 1074)"
  define u where "u = 2 powr real_of_int e"
  have u: "0 < u" by (simp add: u_def)
  have "x < 2 powr 53"
  proof -
    have "x \<le> 2 ^ 52" using assms(2,3)
      by (metis of_int_le_iff of_int_numeral of_int_power order_trans)
    also have "\<dots> < (2::real) ^ 53" by simp
    finally show ?thesis by simp
  qed
  then have "log 2 x < 53"
    using x by (simp add: log_less_iff)
  then have "\<lfloor>log 2 x\<rfloor> \<le> 52"
    by (simp add: floor_le_iff)
  then have e: "e \<le> 0"
    using x by (simp add: e_def)
  then obtain n where n: "e = - int n"
    by (metis int_nat_eq minus_minus neg_0_le_iff_le)
  have un: "u = 1 / 2 ^ n"
    by (simp add: u_def n powr_minus powr_realpow inverse_eq_divide)
  have "x / u \<le> real_of_int (m * 2 ^ n)"
    using assms(2) by (simp add: un)
  then have "py_round (x / u) \<le> m * 2 ^ n"
    by (rule py_round_le)
  then have "real_of_int (py_round (x / u)) \<le> real_of_int (m * 2 ^ n)"
    by (simp only: of_int_le_iff)
  then have "real_of_int (py_round (x / u)) * u \<le> real_of_int m"
    by (simp add: un field_simps)
  then show ?thesis
    using False by (simp add: binary64_def Let_def e_def [symmetric] u_def [symmetric])
qed




section \<open>The handlers on an active session\<close>

lemma correct_count_bounds:
  "correct_count (results_loop ua 0 qs tally0) \<le> int (length qs)"
proof -
  have "length (filter (answered_correctly ua) [0..<length qs]) \<le> length [0..<length qs]"
    by (rule length_filter_le)
  then show ?thesis
    by (simp add: results_loop_correct_count tally0_def)
qed

lemma correct_count_nonneg: "0 \<le> correct_count (results_loop ua 0 qs tally0)"
  by (simp add: results_loop_correct_count tally0_def)

lemma binary64_quotient:
  assumes "0 \<le> c" and "c \<le> t" and "0 < t"
  shows "0 \<le> binary64 (real_of_int c / real_of_int t)"
    and "binary64 (real_of_int c / real_of_int t) \<le> 1"
proof -
  have q: "0 \<le> real_of_int c / real_of_int t" "real_of_int c / real_of_int t \<le> real_of_int 1"
    using assms by simp_all
  show "0 \<le> binary64 (real_of_int c / real_of_int t)"
    using q(1) by (rule binary64_nonneg)
  have "binary64 (real_of_int c / real_of_int t) \<le> real_of_int 1"
    using q by (rule binary64_le_int) simp
  then show "binary64 (real_of_int c / real_of_int t) \<le> 1"
    by simp
qed

lemma accuracy_of_value:
  assumes "0 \<le> c" and "c \<le> t"
  shows "accuracy_of c t =
           Inr (if 0 < t then binary64 (binary64 (real_of_int c / real_of_int t) * 100) else 0)"
proof (cases "0 < t")
  case True
  have "\<bar>binary64 (real_of_int c / real_of_int t)\<bar> \<le> 1"
    using binary64_quotient [OF assms True] by simp
  moreover have "(1::real) < 2 ^ 1024"
    by simp
  ultimately have "\<not> 2 ^ 1024 \<le> \<bar>binary64 (real_of_int c / real_of_int t)\<bar>"
    by linarith
  then show ?thesis
    using True by (simp add: accuracy_of_def py_truediv_def Let_def)
next
  case False
  then show ?thesis
    by (simp add: accuracy_of_def)
qed


lemma accuracy_of_results:
  "accuracy_of (correct_count (results_loop ua 0 qs tally0)) (int (length qs)) =
     Inr (if qs \<noteq> []
          then binary64 (binary64 (real_of_int (correct_count (results_loop ua 0 qs tally0))
                                     / real (length qs)) * 100)
          else 0)"
  using accuracy_of_value [OF correct_count_nonneg correct_count_bounds, of ua qs]
  by simp

lemma check_answer_valid:
  assumes "questions s = Some qs" and "user_answers s = Some ua"
    and "question_index d = Some i" and "0 \<le> i" and "i < int (length qs)"
  shows "check_answer s d =
           (s\<lparr>user_answers :=
                Some (ua(str i \<mapsto> \<lparr>user_answer = selected_option d,
                                    is_correct = (selected_option d = Some (correct_answer (qs ! nat i)))\<rparr>))\<rparr>,
            Inr \<lparr>r_is_correct = (selected_option d = Some (correct_answer (qs ! nat i))),
                 r_correct_answer = correct_answer (qs ! nat i),
                 r_solution = (case solution (qs ! nat i) of
                                 None \<Rightarrow> ''Solution not available.'' | Some sol \<Rightarrow> sol)\<rparr>)"
  using assms by (simp add: check_answer_def Let_def)

lemma results_active:
  assumes "questions s = Some qs"
  shows "\<exists>rd. results s now u =
           (s\<lparr>questions := None, user_answers := None, start_time := None, timed_test := None\<rparr>,
            Inr (ResultsPage
                  (correct_count (results_loop (case user_answers s of None \<Rightarrow> Map.empty | Some m \<Rightarrow> m) 0 qs tally0))
                  (int (length qs)) rd))"
  using assms by (simp add: results_def Let_def accuracy_of_results)

lemma answered_partition:
  "length (filter (answered_correctly ua) xs) + length (filter (answered_incorrectly ua) xs)
     + length (filter (\<lambda>j. ua (str (int j)) = None) xs) = length xs"
  by (induction xs) (auto simp add: answered_correctly_def answered_incorrectly_def split: option.splits)

lemma results_report_active:
  assumes "questions s = Some qs"
  shows "results_report s now u =
           (let ua = (case user_answers s of None \<Rightarrow> Map.empty | Some m \<Rightarrow> m);
                t = results_loop ua 0 qs tally0;
                tot = int (length qs)
            in Some \<lparr>rd_student_name = (case u of None \<Rightarrow> ''Guest'' | Some v \<Rightarrow> email v),
                     rd_score = correct_count t,
                     rd_total_questions = tot,
                     rd_accuracy = py_round2 (if tot > 0
                                              then binary64 (binary64 (real_of_int (correct_count t) / real_of_int tot) * 100)
                                              else 0),
                     rd_correct_count = correct_count t,
                     rd_incorrect_count = incorrect_count t,
                     rd_unanswered_count = tot - (correct_count t + incorrect_count t),
                     rd_total_time_taken = py_round (now - (case start_time s of None \<Rightarrow> 0 | Some st \<Rightarrow> st)),
                     rd_topic_breakdown = topic_breakdown t\<rparr>)"
  using assms by (simp add: results_report_def results_def Let_def accuracy_of_results)

lemma results_score_active:
  assumes "questions s = Some qs"
  shows "results_score s now u =
           Some (correct_count (results_loop (case user_answers s of None \<Rightarrow> Map.empty | Some m \<Rightarrow> m) 0 qs tally0))"
  using assms by (simp add: results_score_def results_def Let_def accuracy_of_results)

lemma answered_correctly_del:
  "answered_correctly (ua(str (int j) := None)) k =
     (if k = j then False else answered_correctly ua k)"
  by (simp add: answered_correctly_def str_int_inj)

lemma correct_count_ledger_delete:
  assumes "j < length qs"
  shows "correct_count (results_loop (ua(str (int j) := None)) 0 qs t) =
           correct_count (results_loop ua 0 qs t) - (if answered_correctly ua j then 1 else 0)"
  using count_update [of j "length qs" "answered_correctly (ua(str (int j) := None))" "answered_correctly ua"] assms
  by (simp add: results_loop_correct_count answered_correctly_del)

section \<open>Rejection of an invalid index\<close>

text \<open>
  Claim C4. On a session that has \<^verbatim>\<open>'questions'\<close>, of length \<open>N\<close>, \<^verbatim>\<open>check_answer\<close>
  answers "Invalid question index" exactly when \<^verbatim>\<open>question_index\<close> is missing (null) or lies
  outside \<open>0 .. N - 1\<close>. The indices \<open>-1\<close> and \<open>N\<close> and a missing index are rejected, and a
  rejected request leaves the whole session, and so the ledger, as it was.
\<close>

theorem check_answer_invalid_index:
  assumes "questions s = Some qs"
  shows "(snd (check_answer s d) = Inl InvalidIndex \<longleftrightarrow>
            (question_index d = None
             \<or> (\<exists>i. question_index d = Some i \<and> (i < 0 \<or> int (length qs) \<le> i))))
         \<and> (snd (check_answer s d) = Inl InvalidIndex \<longrightarrow> fst (check_answer s d) = s)
         \<and> check_answer s (d\<lparr>question_index := Some (- 1)\<rparr>) = (s, Inl InvalidIndex)
         \<and> check_answer s (d\<lparr>question_index := Some (int (length qs))\<rparr>) = (s, Inl InvalidIndex)
         \<and> check_answer s (d\<lparr>question_index := None\<rparr>) = (s, Inl InvalidIndex)"
  using assms
  by (auto simp add: check_answer_def Let_def split: option.splits)

theorem check_answer_invalid_index_witness:
  "questions ex_session = Some [ex_q1, ex_q2, ex_q3]
   \<and> check_answer ex_session \<lparr>selected_option = Some ''A'', question_index = Some 3\<rparr>
       = (ex_session, Inl InvalidIndex)
   \<and> check_answer ex_session \<lparr>selected_option = Some ''A'', question_index = Some (- 1)\<rparr>
       = (ex_session, Inl InvalidIndex)
   \<and> snd (check_answer ex_session \<lparr>selected_option = Some ''A'', question_index = Some 2\<rparr>)
       \<noteq> Inl InvalidIndex"
proof -
  have q: "questions ex_session = Some [ex_q1, ex_q2, ex_q3]"
    by (simp add: ex_session_def)
  note t = check_answer_invalid_index [OF q]
  have a: "check_answer ex_session \<lparr>selected_option = Some ''A'', question_index = Some 3\<rparr>
             = (ex_session, Inl InvalidIndex)"
    using t [of "\<lparr>selected_option = Some ''A'', question_index = Some 0\<rparr>"] by simp
  have b: "check_answer ex_session \<lparr>selected_option = Some ''A'', question_index = Some (- 1)\<rparr>
             = (ex_session, Inl InvalidIndex)"
    using t [of "\<lparr>selected_option = Some ''A'', question_index = Some 0\<rparr>"] by simp
  have c: "snd (check_answer ex_session \<lparr>selected_option = Some ''A'', question_index = Some 2\<rparr>)
             \<noteq> Inl InvalidIndex"
    using t [of "\<lparr>selected_option = Some ''A'', question_index = Some 2\<rparr>"] by simp
  from q a b c show ?thesis by simp
qed

section \<open>A null selection\<close>

lemma answered_incorrectly_del:
  "answered_incorrectly (ua(str (int j) := None)) k =
     (if k = j then False else answered_incorrectly ua k)"
  by (simp add: answered_incorrectly_def str_int_inj)

lemma unanswered_count_eq:
  "int (length qs) - (correct_count (results_loop ua 0 qs tally0) + incorrect_count (results_loop ua 0 qs tally0))
     = int (length (filter (\<lambda>j. ua (str (int j)) = None) [0..<length qs]))"
  using answered_partition [of ua "[0..<length qs]"]
  by (simp add: results_loop_correct_count results_loop_incorrect_count tally0_def)

text \<open>
  Claim C10. On an active session (one that has \<^verbatim>\<open>'questions'\<close> and \<^verbatim>\<open>'user_answers'\<close>) and
  a valid index, \<^verbatim>\<open>check_answer\<close> with no selected option does not fail: it writes the
  record \<^verbatim>\<open>{'user_answer': None, 'is_correct': False}\<close> at that index and answers with
  \<^verbatim>\<open>is_correct\<close> false, the correct answer and the solution. The question then counts
  among the incorrectly answered ones of \<^verbatim>\<open>results\<close>, not among the unanswered ones.
\<close>

theorem check_answer_null_selection:
  assumes "questions s = Some qs" and "user_answers s = Some ua"
    and "0 \<le> i" and "i < int (length qs)"
  shows "let ua' = ua(str i \<mapsto> \<lparr>user_answer = None, is_correct = False\<rparr>);
             s' = fst (check_answer s \<lparr>selected_option = None, question_index = Some i\<rparr>)
         in check_answer s \<lparr>selected_option = None, question_index = Some i\<rparr> =
              (s\<lparr>user_answers := Some ua'\<rparr>,
               Inr \<lparr>r_is_correct = False,
                    r_correct_answer = correct_answer (qs ! nat i),
                    r_solution = (case solution (qs ! nat i) of
                                    None \<Rightarrow> ''Solution not available.'' | Some sol \<Rightarrow> sol)\<rparr>)
            \<and> answered_incorrectly ua' (nat i)
            \<and> ua' (str i) \<noteq> None
            \<and> (\<forall>now u. \<exists>rd. results_report s' now u = Some rd
                  \<and> rd_incorrect_count rd
                      = int (length (filter (answered_incorrectly ua') [0..<length qs]))
                  \<and> rd_unanswered_count rd
                      = int (length (filter (\<lambda>j. ua' (str (int j)) = None) [0..<length qs]))
                  \<and> rd_incorrect_count rd
                      = incorrect_count (results_loop (ua(str i := None)) 0 qs tally0) + 1)"
proof -
  define ua' where "ua' = ua(str i \<mapsto> \<lparr>user_answer = None, is_correct = False\<rparr>)"
  define d where "d = \<lparr>selected_option = None, question_index = Some i\<rparr>"
  have ca: "check_answer s d =
              (s\<lparr>user_answers := Some ua'\<rparr>,
               Inr \<lparr>r_is_correct = False,
                    r_correct_answer = correct_answer (qs ! nat i),
                    r_solution = (case solution (qs ! nat i) of
                                    None \<Rightarrow> ''Solution not available.'' | Some sol \<Rightarrow> sol)\<rparr>)"
    using check_answer_valid [OF assms(1) assms(2), of d i] assms(3,4)
    by (simp add: d_def ua'_def)
  obtain j where ij: "i = int j"
    using assms(3) nonneg_int_cases by blast
  have lt: "j < length qs"
    using assms(4) by (simp add: ij)
  have inc: "answered_incorrectly ua' (nat i)"
    by (simp add: answered_incorrectly_def ua'_def ij)
  have ne: "ua' (str i) \<noteq> None"
    by (simp add: ua'_def)
  have q': "questions (s\<lparr>user_answers := Some ua'\<rparr>) = Some qs"
    using assms(1) by simp
  have cnt: "incorrect_count (results_loop ua' 0 qs tally0)
               = incorrect_count (results_loop (ua(str i := None)) 0 qs tally0) + 1"
    using incorrect_count_ledger_update [OF lt, of "ua(str (int j) := None)" "\<lparr>user_answer = None, is_correct = False\<rparr>" tally0]
    by (simp add: answered_incorrectly_del ua'_def ij)
  have rep: "\<exists>rd. results_report (s\<lparr>user_answers := Some ua'\<rparr>) now u = Some rd
                  \<and> rd_incorrect_count rd
                      = int (length (filter (answered_incorrectly ua') [0..<length qs]))
                  \<and> rd_unanswered_count rd
                      = int (length (filter (\<lambda>j. ua' (str (int j)) = None) [0..<length qs]))
                  \<and> rd_incorrect_count rd
                      = incorrect_count (results_loop (ua(str i := None)) 0 qs tally0) + 1" for now u
    using results_report_active [OF q', of now u] unanswered_count_eq [of qs ua'] cnt
    by (simp add: Let_def results_loop_incorrect_count tally0_def)
  show ?thesis
    unfolding Let_def ua'_def [symmetric] d_def [symmetric]
    using ca inc ne rep by simp
qed


theorem check_answer_null_selection_witness:
  "questions ex_session = Some [ex_q1, ex_q2, ex_q3]
   \<and> user_answers ex_session = Some ex_ledger
   \<and> (0::int) \<le> 2 \<and> (2::int) < int (length [ex_q1, ex_q2, ex_q3])
   \<and> check_answer ex_session \<lparr>selected_option = None, question_index = Some 2\<rparr> =
        (ex_session\<lparr>user_answers :=
            Some (ex_ledger(''2'' \<mapsto> \<lparr>user_answer = None, is_correct = False\<rparr>))\<rparr>,
         Inr \<lparr>r_is_correct = False, r_correct_answer = ''C'',
              r_solution = ''Solution not available.''\<rparr>)
   \<and> answered_incorrectly (ex_ledger(''2'' \<mapsto> \<lparr>user_answer = None, is_correct = False\<rparr>)) 2"
proof -
  have q: "questions ex_session = Some [ex_q1, ex_q2, ex_q3]"
    and l: "user_answers ex_session = Some ex_ledger"
    by (simp_all add: ex_session_def)
  have r: "(0::int) \<le> 2" "(2::int) < int (length [ex_q1, ex_q2, ex_q3])"
    by simp_all
  show ?thesis
    using check_answer_null_selection [OF q l r] q l
    by (simp add: Let_def str_2 ex_q3_def)
qed

section \<open>Answering a question again\<close>

text \<open>
  Claim C1, for the report-generator application. On an active session, when the ledger
  already has a record for a valid index, a second \<^verbatim>\<open>check_answer\<close> for that index
  replaces the record: the ledger has the same keys as before, the record at the index
  holds the latest selection and its correctness, and every other record is untouched.
  The score \<^verbatim>\<open>results\<close> then computes is the earlier score without the old record's
  contribution plus the new record's; it is the score of the ledger without that index
  plus the latest submission, and never exceeds the number of questions.
\<close>

theorem check_answer_resubmission:
  assumes "questions s = Some qs" and "user_answers s = Some ua"
    and "question_index d = Some i" and "0 \<le> i" and "i < int (length qs)"
    and "ua (str i) = Some old"
  shows "let new = \<lparr>user_answer = selected_option d,
                    is_correct = (selected_option d = Some (correct_answer (qs ! nat i)))\<rparr>;
             ua' = ua(str i \<mapsto> new);
             s' = fst (check_answer s d)
         in user_answers s' = Some ua' \<and> ua' (str i) = Some new \<and> dom ua' = dom ua
            \<and> (\<forall>k. k \<noteq> str i \<longrightarrow> ua' k = ua k)
            \<and> (\<forall>now u. \<exists>sc sc'. results_score s now u = Some sc
                   \<and> results_score s' now u = Some sc'
                   \<and> sc' = sc - (if is_correct old then 1 else 0) + (if is_correct new then 1 else 0)
                   \<and> sc' = correct_count (results_loop (ua(str i := None)) 0 qs tally0)
                            + (if is_correct new then 1 else 0)
                   \<and> sc' \<le> int (length qs))"
proof -
  define new where "new = \<lparr>user_answer = selected_option d,
                    is_correct = (selected_option d = Some (correct_answer (qs ! nat i)))\<rparr>"
  define ua' where "ua' = ua(str i \<mapsto> new)"
  obtain j where ij: "i = int j"
    using assms(4) nonneg_int_cases by blast
  have lt: "j < length qs"
    using assms(5) by (simp add: ij)
  have ca: "fst (check_answer s d) = s\<lparr>user_answers := Some ua'\<rparr>"
    using check_answer_valid [OF assms(1) assms(2) assms(3) assms(4) assms(5)]
    by (simp add: ua'_def new_def)
  have d: "dom ua' = dom ua"
    using assms(6) by (auto simp add: ua'_def)
  have old: "answered_correctly ua j = is_correct old"
    using assms(6) by (simp add: answered_correctly_def ij)
  have sc: "results_score s now u = Some (correct_count (results_loop ua 0 qs tally0))" for now u
    using results_score_active [OF assms(1), of now u] assms(2) by simp
  have q': "questions (s\<lparr>user_answers := Some ua'\<rparr>) = Some qs"
    using assms(1) by simp
  have sc': "results_score (s\<lparr>user_answers := Some ua'\<rparr>) now u
               = Some (correct_count (results_loop ua' 0 qs tally0))" for now u
    using results_score_active [OF q', of now u] by simp
  have e1: "correct_count (results_loop ua' 0 qs tally0)
              = correct_count (results_loop ua 0 qs tally0)
                - (if is_correct old then 1 else 0) + (if is_correct new then 1 else 0)"
    using correct_count_ledger_update [OF lt, of ua new tally0] old
    by (simp add: ua'_def ij)
  have e2: "correct_count (results_loop ua' 0 qs tally0)
              = correct_count (results_loop (ua(str i := None)) 0 qs tally0)
                + (if is_correct new then 1 else 0)"
    using correct_count_ledger_update [OF lt, of "ua(str (int j) := None)" new tally0]
    by (simp add: ua'_def ij answered_correctly_del)
  have e3: "correct_count (results_loop ua' 0 qs tally0) \<le> int (length qs)"
    by (rule correct_count_bounds)
  show ?thesis
    unfolding Let_def new_def [symmetric] ua'_def [symmetric] ca
    using d sc sc' e1 e2 e3 by (simp add: ua'_def)
qed

theorem check_answer_resubmission_witness:
  "questions ex_session = Some [ex_q1, ex_q2, ex_q3]
   \<and> user_answers ex_session = Some ex_ledger
   \<and> ex_ledger (str 1) = Some \<lparr>user_answer = Some ''C'', is_correct = False\<rparr>
   \<and> user_answers (fst (check_answer ex_session \<lparr>selected_option = Some ''B'', question_index = Some 1\<rparr>))
       = Some (ex_ledger(''1'' \<mapsto> \<lparr>user_answer = Some ''B'', is_correct = True\<rparr>))
   \<and> results_score ex_session 1000 None = Some 1
   \<and> results_score (fst (check_answer ex_session \<lparr>selected_option = Some ''B'', question_index = Some 1\<rparr>)) 1000 None
       = Some 2"
proof -
  have q: "questions ex_session = Some [ex_q1, ex_q2, ex_q3]"
    and l: "user_answers ex_session = Some ex_ledger"
    by (simp_all add: ex_session_def)
  have o: "ex_ledger (str 1) = Some \<lparr>user_answer = Some ''C'', is_correct = False\<rparr>"
    by (simp add: ex_ledger_def str_1)
  have i: "question_index \<lparr>selected_option = Some ''B'', question_index = Some 1\<rparr> = Some 1"
    "(0::int) \<le> 1" "(1::int) < int (length [ex_q1, ex_q2, ex_q3])"
    by simp_all
  have before: "results_score ex_session 1000 None = Some 1"
    using results_score_active [OF q, of 1000 None]
    by (simp add: l results_step_def Let_def tally0_def ex_ledger_def str_0 str_1 str_2 bucket_of_def)
  show ?thesis
    using check_answer_resubmission [OF q l i o] q l o before
    by (simp add: Let_def ex_q2_def str_1)
qed

text \<open>
  The older application keeps no such ledger. On a quiz of one question, answering the
  question correctly twice leaves the stored counter at 2, and \<^verbatim>\<open>results\<close> reports a
  score of 2 out of 1.
\<close>

theorem pf_check_answer_double_count:
  "fst (pf_check_answer (Some ex_pf_one) (Some ''A'') 1000)
     = Some (ex_pf_one\<lparr>pf_score := 1, pf_answered := [True]\<rparr>)
   \<and> fst (pf_check_answer (Some (ex_pf_one\<lparr>pf_score := 1, pf_answered := [True]\<rparr>)) (Some ''A'') 1000)
     = Some (ex_pf_one\<lparr>pf_score := 2, pf_answered := [True]\<rparr>)
   \<and> snd (pf_results (Some (ex_pf_one\<lparr>pf_score := 2, pf_answered := [True]\<rparr>)) False)
     = PfResultsPage 2 1 False False"
  by (simp add: pf_check_answer_def pf_results_def ex_pf_one_def py_setitem_def py_getitem_def
      py_index_def ex_q1_def Let_def)


section \<open>What \<^verbatim>\<open>check_answer\<close> changes\<close>

lemma pf_check_answer_in_range:
  assumes "0 \<le> pf_current_question st"
    and "pf_current_question st < int (length (pf_questions st))"
    and "length (pf_answered st) = length (pf_questions st)"
  shows "fst (pf_check_answer (Some st) sel now) =
           Some (st\<lparr>pf_answered := (pf_answered st)[nat (pf_current_question st) := True],
                    pf_score := pf_score st
                      + (if sel = Some (correct_answer (pf_questions st ! nat (pf_current_question st)))
                         then 1 else 0),
                    pf_current_question :=
                      (if pf_current_question st + 1 < int (length (pf_questions st))
                       then pf_current_question st + 1 else pf_current_question st)\<rparr>)"
  using assms
  by (simp add: pf_check_answer_def py_setitem_def py_getitem_def py_index_def Let_def)

text \<open>
  Claim C9, for both applications. In the report-generator application a valid
  submission on an active session changes the ledger entry of the submitted index and
  nothing else: \<^verbatim>\<open>questions\<close>, the stored \<^verbatim>\<open>score\<close>, \<^verbatim>\<open>start_time\<close>, \<^verbatim>\<open>timed_test\<close> and
  the identity keys are as before, and so is every other ledger entry. In the older
  application, with \<^verbatim>\<open>current_question\<close> in range, \<^verbatim>\<open>check_answer\<close> marks the question
  answered, adds one to the stored \<^verbatim>\<open>score\<close> when the answer is correct and moves
  \<^verbatim>\<open>current_question\<close> on when a next question exists; \<^verbatim>\<open>questions\<close>, \<^verbatim>\<open>start_time\<close>,
  \<^verbatim>\<open>timed_test\<close>, \<^verbatim>\<open>time_per_question\<close> and \<^verbatim>\<open>visited\<close> are as before. Neither handler
  takes anything but the session, the request and the clock: it makes no external call.
\<close>

theorem check_answer_frame:
  "(questions s = Some qs \<and> user_answers s = Some ua \<and> question_index d = Some i
      \<and> 0 \<le> i \<and> i < int (length qs)
    \<longrightarrow> (let s' = fst (check_answer s d)
         in questions s' = questions s \<and> score s' = score s \<and> start_time s' = start_time s
            \<and> timed_test s' = timed_test s \<and> user_id s' = user_id s \<and> guest_id s' = guest_id s
            \<and> (\<exists>ua'. user_answers s' = Some ua' \<and> (\<forall>k. k \<noteq> str i \<longrightarrow> ua' k = ua k))
            \<and> s' = s\<lparr>user_answers :=
                      Some (ua(str i \<mapsto> \<lparr>user_answer = selected_option d,
                              is_correct = (selected_option d = Some (correct_answer (qs ! nat i)))\<rparr>))\<rparr>))
   \<and> (0 \<le> pf_current_question st \<and> pf_current_question st < int (length (pf_questions st))
      \<and> length (pf_answered st) = length (pf_questions st)
    \<longrightarrow> (\<exists>st'. fst (pf_check_answer (Some st) sel now) = Some st'
           \<and> pf_questions st' = pf_questions st \<and> pf_start_time st' = pf_start_time st
           \<and> pf_timed_test st' = pf_timed_test st
           \<and> pf_time_per_question st' = pf_time_per_question st
           \<and> pf_visited st' = pf_visited st \<and> pf_dark_mode st' = pf_dark_mode st
           \<and> pf_selected_subjects st' = pf_selected_subjects st
           \<and> pf_answered st' = (pf_answered st)[nat (pf_current_question st) := True]
           \<and> pf_score st' = pf_score st
                + (if sel = Some (correct_answer (pf_questions st ! nat (pf_current_question st)))
                   then 1 else 0)
           \<and> pf_current_question st' =
                (if pf_current_question st + 1 < int (length (pf_questions st))
                 then pf_current_question st + 1 else pf_current_question st)))"
proof (intro conjI impI)
  assume a: "questions s = Some qs \<and> user_answers s = Some ua \<and> question_index d = Some i
      \<and> 0 \<le> i \<and> i < int (length qs)"
  then have "fst (check_answer s d) = s\<lparr>user_answers :=
                      Some (ua(str i \<mapsto> \<lparr>user_answer = selected_option d,
                              is_correct = (selected_option d = Some (correct_answer (qs ! nat i)))\<rparr>))\<rparr>"
    using check_answer_valid [of s qs ua d i] by simp
  then show "let s' = fst (check_answer s d)
         in questions s' = questions s \<and> score s' = score s \<and> start_time s' = start_time s
            \<and> timed_test s' = timed_test s \<and> user_id s' = user_id s \<and> guest_id s' = guest_id s
            \<and> (\<exists>ua'. user_answers s' = Some ua' \<and> (\<forall>k. k \<noteq> str i \<longrightarrow> ua' k = ua k))
            \<and> s' = s\<lparr>user_answers :=
                      Some (ua(str i \<mapsto> \<lparr>user_answer = selected_option d,
                              is_correct = (selected_option d = Some (correct_answer (qs ! nat i)))\<rparr>))\<rparr>"
    by (simp add: Let_def)
next
  assume b: "0 \<le> pf_current_question st \<and> pf_current_question st < int (length (pf_questions st))
      \<and> length (pf_answered st) = length (pf_questions st)"
  then show "\<exists>st'. fst (pf_check_answer (Some st) sel now) = Some st'
           \<and> pf_questions st' = pf_questions st \<and> pf_start_time st' = pf_start_time st
           \<and> pf_timed_test st' = pf_timed_test st
           \<and> pf_time_per_question st' = pf_time_per_question st
           \<and> pf_visited st' = pf_visited st \<and> pf_dark_mode st' = pf_dark_mode st
           \<and> pf_selected_subjects st' = pf_selected_subjects st
           \<and> pf_answered st' = (pf_answered st)[nat (pf_current_question st) := True]
           \<and> pf_score st' = pf_score st
                + (if sel = Some (correct_answer (pf_questions st ! nat (pf_current_question st)))
                   then 1 else 0)
           \<and> pf_current_question st' =
                (if pf_current_question st + 1 < int (length (pf_questions st))
                 then pf_current_question st + 1 else pf_current_question st)"
    using pf_check_answer_in_range [of st sel now] by simp
qed

theorem check_answer_frame_witness:
  "questions ex_session = Some [ex_q1, ex_q2, ex_q3] \<and> user_answers ex_session = Some ex_ledger
   \<and> fst (check_answer ex_session \<lparr>selected_option = Some ''C'', question_index = Some 2\<rparr>)
       = ex_session\<lparr>user_answers :=
           Some (ex_ledger(''2'' \<mapsto> \<lparr>user_answer = Some ''C'', is_correct = True\<rparr>))\<rparr>
   \<and> (0::int) \<le> pf_current_question ex_pf_two
   \<and> pf_current_question ex_pf_two < int (length (pf_questions ex_pf_two))
   \<and> length (pf_answered ex_pf_two) = length (pf_questions ex_pf_two)
   \<and> (\<exists>st'. fst (pf_check_answer (Some ex_pf_two) (Some ''B'') 1000) = Some st'
         \<and> pf_questions st' = [ex_q1, ex_q2] \<and> pf_score st' = 0
         \<and> pf_answered st' = [True, False] \<and> pf_current_question st' = 1)"
proof -
  have q: "questions ex_session = Some [ex_q1, ex_q2, ex_q3]"
    and l: "user_answers ex_session = Some ex_ledger"
    by (simp_all add: ex_session_def)
  have p: "(0::int) \<le> pf_current_question ex_pf_two"
    "pf_current_question ex_pf_two < int (length (pf_questions ex_pf_two))"
    "length (pf_answered ex_pf_two) = length (pf_questions ex_pf_two)"
    by (simp_all add: ex_pf_two_def)
  note t = check_answer_frame [of ex_session "[ex_q1, ex_q2, ex_q3]" ex_ledger
        "\<lparr>selected_option = Some ''C'', question_index = Some 2\<rparr>" 2 ex_pf_two "Some ''B''" 1000]
  have m: "fst (check_answer ex_session \<lparr>selected_option = Some ''C'', question_index = Some 2\<rparr>)
       = ex_session\<lparr>user_answers :=
           Some (ex_ledger(''2'' \<mapsto> \<lparr>user_answer = Some ''C'', is_correct = True\<rparr>))\<rparr>"
    using t [THEN conjunct1] q l by (simp add: Let_def str_2 ex_q3_def)
  obtain st' where st': "fst (pf_check_answer (Some ex_pf_two) (Some ''B'') 1000) = Some st'"
    "pf_questions st' = pf_questions ex_pf_two"
    "pf_answered st' = (pf_answered ex_pf_two)[nat (pf_current_question ex_pf_two) := True]"
    "pf_score st' = pf_score ex_pf_two
       + (if Some ''B'' = Some (correct_answer (pf_questions ex_pf_two ! nat (pf_current_question ex_pf_two)))
          then 1 else 0)"
    "pf_current_question st' =
       (if pf_current_question ex_pf_two + 1 < int (length (pf_questions ex_pf_two))
        then pf_current_question ex_pf_two + 1 else pf_current_question ex_pf_two)"
    using t [THEN conjunct2] p by blast
  have f: "pf_questions st' = [ex_q1, ex_q2]" "pf_score st' = 0"
    "pf_answered st' = [True, False]" "pf_current_question st' = 1"
    using st'(2-5) by (simp_all add: ex_pf_two_def ex_q1_def)
  from q l m p st'(1) f show ?thesis by blast
qed

text \<open>
  In the older application a valid, correct submission changes the stored score (from 0
  to 1 here) and \<^verbatim>\<open>current_question\<close> (from 0 to 1).
\<close>

theorem pf_check_answer_changes_score:
  "fst (pf_check_answer (Some ex_pf_two) (Some ''A'') 1000)
     = Some (ex_pf_two\<lparr>pf_current_question := 1, pf_score := 1, pf_answered := [True, False]\<rparr>)
   \<and> pf_score ex_pf_two = 0 \<and> pf_current_question ex_pf_two = 0"
  by (simp add: pf_check_answer_def ex_pf_two_def py_setitem_def py_getitem_def
      py_index_def ex_q1_def Let_def)

section \<open>The report of \<^verbatim>\<open>results\<close>\<close>

text \<open>
  Claim C5. On a session that has \<^verbatim>\<open>'questions'\<close>, \<^verbatim>\<open>results\<close> builds a topic breakdown
  whose keys are the topics \<open>topic_of q\<close> of the questions (the subject abbreviation, then
  \<^verbatim>\<open>" -> "\<close>, then the chapter). In the bucket of a topic, \<open>total\<close> counts every question
  of that topic, answered or not; \<open>correct\<close> and \<open>incorrect\<close> count only the questions of
  that topic that the ledger records as answered correctly and incorrectly. The report's
  \<^verbatim>\<open>unanswered_count\<close> is \<^verbatim>\<open>total - correct_count - incorrect_count\<close>, which is the number
  of indices with no ledger entry.
\<close>

theorem results_topic_breakdown:
  assumes "questions s = Some qs"
  shows "\<exists>rd. results_report s now u = Some rd
           \<and> (let ua = (case user_answers s of None \<Rightarrow> Map.empty | Some m \<Rightarrow> m)
              in dom (rd_topic_breakdown rd) = topic_of ` set qs
                 \<and> (\<forall>k. bucket_of (rd_topic_breakdown rd) k =
                       \<lparr>correct = int (length (filter (\<lambda>(j, q). topic_of q = k \<and> answered_correctly ua j)
                                                 (enumerate 0 qs))),
                        incorrect = int (length (filter (\<lambda>(j, q). topic_of q = k \<and> answered_incorrectly ua j)
                                                   (enumerate 0 qs))),
                        total = int (length (filter (\<lambda>q. topic_of q = k) qs))\<rparr>)
                 \<and> rd_total_questions rd = int (length qs)
                 \<and> rd_correct_count rd = int (length (filter (answered_correctly ua) [0..<length qs]))
                 \<and> rd_incorrect_count rd = int (length (filter (answered_incorrectly ua) [0..<length qs]))
                 \<and> rd_unanswered_count rd
                     = rd_total_questions rd - rd_correct_count rd - rd_incorrect_count rd
                 \<and> rd_unanswered_count rd
                     = int (length (filter (\<lambda>j. ua (str (int j)) = None) [0..<length qs])))"
proof -
  define ua where "ua = (case user_answers s of None \<Rightarrow> Map.empty | Some m \<Rightarrow> m)"
  define t where "t = results_loop ua 0 qs tally0"
  have d: "dom (topic_breakdown t) = topic_of ` set qs"
    by (simp add: t_def dom_results_loop tally0_def)
  have b: "bucket_of (topic_breakdown t) k =
             \<lparr>correct = int (length (filter (\<lambda>(j, q). topic_of q = k \<and> answered_correctly ua j)
                                       (enumerate 0 qs))),
              incorrect = int (length (filter (\<lambda>(j, q). topic_of q = k \<and> answered_incorrectly ua j)
                                         (enumerate 0 qs))),
              total = int (length (filter (\<lambda>q. topic_of q = k) qs))\<rparr>" for k
    unfolding t_def
    by (subst bucket_of_results_loop) (simp add: Let_def tally0_def bucket_of_def)
  have c: "correct_count t = int (length (filter (answered_correctly ua) [0..<length qs]))"
    by (simp add: t_def results_loop_correct_count tally0_def)
  have i: "incorrect_count t = int (length (filter (answered_incorrectly ua) [0..<length qs]))"
    by (simp add: t_def results_loop_incorrect_count tally0_def)
  have n: "int (length qs) - (correct_count t + incorrect_count t)
             = int (length (filter (\<lambda>j. ua (str (int j)) = None) [0..<length qs]))"
    unfolding t_def by (rule unanswered_count_eq)
  show ?thesis
    using results_report_active [OF assms, of now u] d b c i n
    by (simp add: Let_def ua_def [symmetric] t_def [symmetric])
qed


theorem results_topic_breakdown_witness:
  "questions ex_session = Some [ex_q1, ex_q2, ex_q3]
   \<and> (\<exists>rd. results_report ex_session 1000 None = Some rd
         \<and> dom (rd_topic_breakdown rd) = {''LR -> Syllogisms'', ''QA -> Ratios''}
         \<and> bucket_of (rd_topic_breakdown rd) ''LR -> Syllogisms''
             = \<lparr>correct = 1, incorrect = 1, total = 2\<rparr>
         \<and> bucket_of (rd_topic_breakdown rd) ''QA -> Ratios''
             = \<lparr>correct = 0, incorrect = 0, total = 1\<rparr>
         \<and> rd_unanswered_count rd = 1)"
proof -
  have q: "questions ex_session = Some [ex_q1, ex_q2, ex_q3]"
    by (simp add: ex_session_def)
  have l: "(case user_answers ex_session of None \<Rightarrow> Map.empty | Some m \<Rightarrow> m) = ex_ledger"
    by (simp add: ex_session_def)
  have t: "topic_of ex_q1 = ''LR -> Syllogisms''" "topic_of ex_q2 = ''LR -> Syllogisms''"
    "topic_of ex_q3 = ''QA -> Ratios''"
    by (simp_all add: topic_of_def ex_q1_def ex_q2_def ex_q3_def SUBJECT_MAP_def)
  have a: "answered_correctly ex_ledger 0" "\<not> answered_correctly ex_ledger (Suc 0)"
    "\<not> answered_correctly ex_ledger (Suc (Suc 0))"
    "\<not> answered_incorrectly ex_ledger 0" "answered_incorrectly ex_ledger (Suc 0)"
    "\<not> answered_incorrectly ex_ledger (Suc (Suc 0))"
    by (simp_all add: answered_correctly_def answered_incorrectly_def ex_ledger_def str_0 str_1 str_2)
  have n: "ex_ledger (str 0) \<noteq> None" "ex_ledger (str 1) \<noteq> None" "ex_ledger (str 2) = None"
    by (simp_all add: ex_ledger_def str_0 str_1 str_2)
  obtain rd where rd: "results_report ex_session 1000 None = Some rd"
    "dom (rd_topic_breakdown rd) = topic_of ` set [ex_q1, ex_q2, ex_q3]"
    "\<And>k. bucket_of (rd_topic_breakdown rd) k =
           \<lparr>correct = int (length (filter (\<lambda>(j, q). topic_of q = k \<and> answered_correctly ex_ledger j)
                                     (enumerate 0 [ex_q1, ex_q2, ex_q3]))),
            incorrect = int (length (filter (\<lambda>(j, q). topic_of q = k \<and> answered_incorrectly ex_ledger j)
                                       (enumerate 0 [ex_q1, ex_q2, ex_q3]))),
            total = int (length (filter (\<lambda>q. topic_of q = k) [ex_q1, ex_q2, ex_q3]))\<rparr>"
    "rd_unanswered_count rd
       = int (length (filter (\<lambda>j. ex_ledger (str (int j)) = None) [0..<length [ex_q1, ex_q2, ex_q3]]))"
    using results_topic_breakdown [OF q, of 1000 None] unfolding l Let_def by blast
  have d: "dom (rd_topic_breakdown rd) = {''LR -> Syllogisms'', ''QA -> Ratios''}"
    using rd(2) by (simp add: t)
  have b1: "bucket_of (rd_topic_breakdown rd) ''LR -> Syllogisms''
             = \<lparr>correct = 1, incorrect = 1, total = 2\<rparr>"
    by (simp add: rd(3) t a)
  have b2: "bucket_of (rd_topic_breakdown rd) ''QA -> Ratios''
             = \<lparr>correct = 0, incorrect = 0, total = 1\<rparr>"
    by (simp add: rd(3) t a)
  have "[0..<length [ex_q1, ex_q2, ex_q3]] = [0, 1, 2]"
    by (simp add: upt_rec)
  then have u: "rd_unanswered_count rd = 1"
    using rd(4) n by simp
  from q rd(1) d b1 b2 u show ?thesis by blast
qed

section \<open>Accuracy\<close>


















section \<open>Remaining time\<close>

lemma pf_check_answer_time_left:
  assumes "0 \<le> pf_current_question st"
    and "pf_current_question st < int (length (pf_questions st))"
    and "length (pf_answered st) = length (pf_questions st)"
    and "pf_timed_test st"
  shows "\<exists>st' resp. pf_check_answer (Some st) sel now = (Some st', Inr resp)
           \<and> pf_questions st' = pf_questions st
           \<and> pr_time_left resp
               = Some (max 0 (real_of_int (int (length (pf_questions st)) * pf_time_per_question st)
                              - (now - pf_start_time st)))"
  using assms
  by (simp add: pf_check_answer_def py_setitem_def py_getitem_def py_index_def Let_def)

text \<open>
  Claim C8. For a timed session of \<open>N\<close> questions, with 60 seconds per question, the time
  left that \<^verbatim>\<open>quiz\<close> reports (and, in the older application, \<^verbatim>\<open>check_answer\<close>) is
  \<open>max 0 (N * 60 - elapsed)\<close> with \<open>elapsed = now - start_time\<close>: 50 for five questions
  after 250 seconds, 0 after 301 seconds. Reporting it never ends the session: \<^verbatim>\<open>quiz\<close>
  returns the session it was given, and the older \<^verbatim>\<open>check_answer\<close> keeps the questions.
\<close>

theorem quiz_time_left:
  "fst (quiz s now) = s
   \<and> (questions s = Some qs \<and> timed_test s = Some True \<and> start_time s = Some st \<longrightarrow>
        quiz s now =
          (s, Inr (QuizPage qs (int (length qs)) True
                     (Some (max 0 (real (length qs) * 60 - (now - st))))))
        \<and> (length qs = 5 \<and> now - st = 250 \<longrightarrow>
             quiz s now = (s, Inr (QuizPage qs 5 True (Some 50))))
        \<and> (length qs = 5 \<and> now - st = 301 \<longrightarrow>
             quiz s now = (s, Inr (QuizPage qs 5 True (Some 0)))))
   \<and> (0 \<le> pf_current_question pst \<and> pf_current_question pst < int (length (pf_questions pst))
        \<and> length (pf_answered pst) = length (pf_questions pst)
        \<and> pf_timed_test pst \<and> pf_time_per_question pst = 60 \<longrightarrow>
        (\<exists>pst' resp. pf_check_answer (Some pst) sel now = (Some pst', Inr resp)
           \<and> pf_questions pst' = pf_questions pst
           \<and> pr_time_left resp
               = Some (max 0 (real (length (pf_questions pst)) * 60 - (now - pf_start_time pst)))))"
proof (intro conjI impI)
  show "fst (quiz s now) = s"
    by (simp add: quiz_def Let_def split: option.splits)
next
  assume a: "questions s = Some qs \<and> timed_test s = Some True \<and> start_time s = Some st"
  then show f: "quiz s now =
          (s, Inr (QuizPage qs (int (length qs)) True
                     (Some (max 0 (real (length qs) * 60 - (now - st))))))"
    by (simp add: quiz_def Let_def)
  {
    assume "length qs = 5 \<and> now - st = 250"
    then show "quiz s now = (s, Inr (QuizPage qs 5 True (Some 50)))"
      using a by (simp add: quiz_def Let_def)
  }
  {
    assume "length qs = 5 \<and> now - st = 301"
    then show "quiz s now = (s, Inr (QuizPage qs 5 True (Some 0)))"
      using a by (simp add: quiz_def Let_def)
  }
next
  assume b: "0 \<le> pf_current_question pst \<and> pf_current_question pst < int (length (pf_questions pst))
        \<and> length (pf_answered pst) = length (pf_questions pst)
        \<and> pf_timed_test pst \<and> pf_time_per_question pst = 60"
  then show "\<exists>pst' resp. pf_check_answer (Some pst) sel now = (Some pst', Inr resp)
           \<and> pf_questions pst' = pf_questions pst
           \<and> pr_time_left resp
               = Some (max 0 (real (length (pf_questions pst)) * 60 - (now - pf_start_time pst)))"
    using pf_check_answer_time_left [of pst sel now] by simp
qed

theorem quiz_time_left_witness:
  "questions ex_timed_session = Some [ex_q1, ex_q2, ex_q3, ex_q1, ex_q2]
   \<and> timed_test ex_timed_session = Some True \<and> start_time ex_timed_session = Some 1000
   \<and> quiz ex_timed_session 1250
       = (ex_timed_session, Inr (QuizPage [ex_q1, ex_q2, ex_q3, ex_q1, ex_q2] 5 True (Some 50)))
   \<and> quiz ex_timed_session 1301
       = (ex_timed_session, Inr (QuizPage [ex_q1, ex_q2, ex_q3, ex_q1, ex_q2] 5 True (Some 0)))
   \<and> questions (fst (quiz ex_timed_session 1301)) = Some [ex_q1, ex_q2, ex_q3, ex_q1, ex_q2]
   \<and> pf_timed_test ex_pf_timed \<and> pf_time_per_question ex_pf_timed = 60
   \<and> (\<exists>pst' resp. pf_check_answer (Some ex_pf_timed) (Some ''A'') 1250 = (Some pst', Inr resp)
         \<and> pr_time_left resp = Some 50)
   \<and> (\<exists>pst' resp. pf_check_answer (Some ex_pf_timed) (Some ''A'') 1301 = (Some pst', Inr resp)
         \<and> pf_questions pst' = [ex_q1, ex_q2, ex_q3, ex_q1, ex_q2]
         \<and> pr_time_left resp = Some 0)"
proof -
  have h: "questions ex_timed_session = Some [ex_q1, ex_q2, ex_q3, ex_q1, ex_q2]"
    "timed_test ex_timed_session = Some True" "start_time ex_timed_session = Some 1000"
    by (simp_all add: ex_timed_session_def)
  have p: "0 \<le> pf_current_question ex_pf_timed"
    "pf_current_question ex_pf_timed < int (length (pf_questions ex_pf_timed))"
    "length (pf_answered ex_pf_timed) = length (pf_questions ex_pf_timed)"
    "pf_timed_test ex_pf_timed" "pf_time_per_question ex_pf_timed = 60"
    by (simp_all add: ex_pf_timed_def)
  have v: "pf_questions ex_pf_timed = [ex_q1, ex_q2, ex_q3, ex_q1, ex_q2]"
    "pf_start_time ex_pf_timed = 1000"
    by (simp_all add: ex_pf_timed_def)
  note t1 = quiz_time_left [of ex_timed_session 1250 "[ex_q1, ex_q2, ex_q3, ex_q1, ex_q2]" 1000
      ex_pf_timed "Some ''A''"]
  note t2 = quiz_time_left [of ex_timed_session 1301 "[ex_q1, ex_q2, ex_q3, ex_q1, ex_q2]" 1000
      ex_pf_timed "Some ''A''"]
  have a: "quiz ex_timed_session 1250
       = (ex_timed_session, Inr (QuizPage [ex_q1, ex_q2, ex_q3, ex_q1, ex_q2] 5 True (Some 50)))"
    using t1 h by simp
  have b: "quiz ex_timed_session 1301
       = (ex_timed_session, Inr (QuizPage [ex_q1, ex_q2, ex_q3, ex_q1, ex_q2] 5 True (Some 0)))"
    using t2 h by simp
  have c: "questions (fst (quiz ex_timed_session 1301)) = Some [ex_q1, ex_q2, ex_q3, ex_q1, ex_q2]"
    using b h by simp
  have d: "\<exists>pst' resp. pf_check_answer (Some ex_pf_timed) (Some ''A'') 1250 = (Some pst', Inr resp)
         \<and> pr_time_left resp = Some 50"
    using t1 p by (auto simp add: v)
  have e: "\<exists>pst' resp. pf_check_answer (Some ex_pf_timed) (Some ''A'') 1301 = (Some pst', Inr resp)
         \<and> pf_questions pst' = [ex_q1, ex_q2, ex_q3, ex_q1, ex_q2]
         \<and> pr_time_left resp = Some 0"
    using t2 p by (auto simp add: v)
  from h a b c p(4,5) d e show ?thesis by blast
qed

section \<open>Distribution of the questions over the subjects\<close>

lemma index_loop_calls:
  assumes "0 < base" and "0 \<le> r"
  shows "fst (index_loop llm difficulty base r i subjects) =
           map (\<lambda>(j, sj). (sj, if int j < r then base + 1 else base)) (enumerate i subjects)"
  using assms by (induction subjects arbitrary: i) (simp_all add: Let_def)

lemma pf_index_loop_calls:
  "pf_index_loop base r i subjects =
     map (\<lambda>(j, sj). (sj, if int j < r then base + 1 else base)) (enumerate i subjects)"
  by (induction subjects arbitrary: i) simp_all

lemma filter_less_upt: "m \<le> k \<Longrightarrow> filter (\<lambda>j. j < m) [0..<k] = [0..<m]"
proof (induction k)
  case 0
  then show ?case by simp
next
  case (Suc k)
  show ?case
  proof (cases "m \<le> k")
    case True
    with Suc.IH show ?thesis by simp
  next
    case False
    with Suc.prems have "m = Suc k" by simp
    then show ?thesis by simp
  qed
qed

lemma sum_counts:
  "sum_list (map (\<lambda>(j, sj). if int j < r then base + 1 else base) (enumerate i subjects)) =
     base * int (length subjects)
       + int (length (filter (\<lambda>j. int j < r) [i..<i + length subjects]))"
proof (induction subjects arbitrary: i)
  case Nil
  then show ?case by simp
next
  case (Cons sj subjects)
  have "[i..<i + length (sj # subjects)] = i # [Suc i..<Suc i + length subjects]"
    by (subst upt_rec) simp
  then show ?case
    by (simp add: Cons.IH algebra_simps)
qed

lemma extra_counts:
  "length (filter (\<lambda>(sj, c). c = base + 1)
      (map (\<lambda>(j, sj). (sj, if int j < r then base + (1::int) else base)) (enumerate i subjects))) =
   length (filter (\<lambda>j. int j < r) [i..<i + length subjects])"
proof -
  have "length (filter (\<lambda>(sj, c). c = base + 1)
      (map (\<lambda>(j, sj). (sj, if int j < r then base + (1::int) else base)) (enumerate i subjects)))
      = length (filter (\<lambda>(j, sj). int j < r) (enumerate i subjects))"
    unfolding length_filter_map
    by (rule arg_cong [where f = length], rule filter_cong) (auto split: if_splits)
  also have "\<dots> = length (filter (\<lambda>j. int j < r) (map fst (enumerate i subjects)))"
    unfolding length_filter_map
    by (rule arg_cong [where f = length], rule filter_cong) auto
  finally show ?thesis
    by (simp add: map_fst_enumerate del: filter_map)
qed

lemma count_below:
  assumes "0 \<le> r" and "r \<le> int k"
  shows "length (filter (\<lambda>j. int j < r) [0..<k]) = nat r"
proof -
  have "(\<lambda>j. int j < r) = (\<lambda>j. j < nat r)"
    using assms(1) by (auto simp add: fun_eq_iff)
  then show ?thesis
    using filter_less_upt [of "nat r" k] assms by simp
qed

text \<open>
  Claim C2. For a question count \<open>N\<close> and a non-empty list of \<open>k\<close> selected subjects with
  \<open>k \<le> N\<close>, the loop of \<^verbatim>\<open>index\<close> calls \<^verbatim>\<open>generate_questions\<close> once per subject, in
  selection order, with \<open>N div k + 1\<close> for the first \<open>N mod k\<close> subjects and \<open>N div k\<close> for
  the others (in both applications). The counts sum to \<open>N\<close>, and exactly \<open>N mod k\<close>
  subjects, fewer than \<open>k\<close>, receive the extra question.
\<close>

theorem index_distribution:
  assumes "subjects \<noteq> []" and "int (length subjects) \<le> N"
  shows "let k = int (length subjects);
             base = N div k;
             r = N mod k;
             calls = fst (index_questions llm difficulty N subjects)
         in calls = map (\<lambda>(i, sj). (sj, if int i < r then base + 1 else base)) (enumerate 0 subjects)
            \<and> pf_index_calls N subjects = calls
            \<and> sum_list (map snd calls) = N
            \<and> length (filter (\<lambda>(sj, c). c = base + 1) calls) = nat r
            \<and> nat r < length subjects
            \<and> (\<forall>i < length subjects.
                  calls ! i = (subjects ! i, if int i < r then base + 1 else base))"
proof -
  define k where "k = int (length subjects)"
  define base where "base = N div k"
  define r where "r = N mod k"
  define spec where
    "spec = map (\<lambda>(i, sj). (sj, if int i < r then base + 1 else base)) (enumerate 0 subjects)"
  have k: "0 < k" using assms(1) by (simp add: k_def)
  have base: "0 < base"
    using assms(2) k unfolding base_def k_def [symmetric]
    by (simp add: pos_imp_zdiv_pos_iff)
  have r: "0 \<le> r" "r < k"
    using k by (simp_all add: r_def)
  have calls: "fst (index_questions llm difficulty N subjects) = spec"
    using assms(1) index_loop_calls [OF base r(1), of llm difficulty 0 subjects]
    unfolding spec_def base_def r_def k_def
    by (simp add: index_questions_def)
  have pf: "pf_index_calls N subjects = spec"
    using assms(1) unfolding spec_def base_def r_def k_def
    by (simp add: pf_index_calls_def pf_index_loop_calls)
  have cnt: "length (filter (\<lambda>j. int j < r) [0..<length subjects]) = nat r"
    using count_below [of r "length subjects"] r by (simp add: k_def)
  have "map snd spec = map (\<lambda>(j, sj). if int j < r then base + 1 else base) (enumerate 0 subjects)"
    by (simp add: spec_def case_prod_beta comp_def)
  then have "sum_list (map snd spec) = base * k + r"
    using sum_counts [of r base 0 subjects] cnt r(1) by (simp add: k_def)
  then have sum: "sum_list (map snd spec) = N"
    by (simp add: base_def r_def)
  have extra: "length (filter (\<lambda>(sj, c). c = base + 1) spec) = nat r"
    using extra_counts [of base r 0 subjects] cnt unfolding spec_def by simp
  have lt: "nat r < length subjects"
    using r by (simp add: k_def)
  have nth: "spec ! i = (subjects ! i, if int i < r then base + 1 else base)"
    if "i < length subjects" for i
    using that by (simp add: spec_def nth_enumerate_eq)
  show ?thesis
    unfolding Let_def k_def [symmetric] base_def [symmetric] r_def [symmetric] calls pf
      spec_def [symmetric]
    using sum extra lt nth by simp
qed


theorem index_distribution_witness:
  "[''Logical Reasoning'', ''Quantitative Aptitude'', ''Verbal Ability''] \<noteq> []
   \<and> int (length [''Logical Reasoning'', ''Quantitative Aptitude'', ''Verbal Ability'']) \<le> 5
   \<and> fst (index_questions (\<lambda>i sj d n. Raised) ''Medium'' 5
            [''Logical Reasoning'', ''Quantitative Aptitude'', ''Verbal Ability''])
       = [(''Logical Reasoning'', 2), (''Quantitative Aptitude'', 2), (''Verbal Ability'', 1)]
   \<and> pf_index_calls 5 [''Logical Reasoning'', ''Quantitative Aptitude'', ''Verbal Ability'']
       = [(''Logical Reasoning'', 2), (''Quantitative Aptitude'', 2), (''Verbal Ability'', 1)]"
proof -
  have a: "[''Logical Reasoning'', ''Quantitative Aptitude'', ''Verbal Ability''] \<noteq> []"
    and b: "int (length [''Logical Reasoning'', ''Quantitative Aptitude'', ''Verbal Ability'']) \<le> 5"
    by simp_all
  show ?thesis
    using index_distribution [OF a b, of "\<lambda>i sj d n. Raised" "''Medium''"]
    by (simp add: Let_def)
qed

section \<open>Fallback to the default questions\<close>

lemma length_slice_to: "0 \<le> n \<Longrightarrow> length (slice_to xs n) = min (nat n) (length xs)"
  by (simp add: slice_to_def)

lemma length_defaults: "length (case defaults sj of None \<Rightarrow> [] | Some qs \<Rightarrow> qs) \<le> 1"
  by (simp add: defaults_def)

lemma index_loop_counts_positive:
  "(sj, c) \<in> set (fst (index_loop llm difficulty base r i subjects)) \<Longrightarrow> 0 < c"
  by (induction subjects arbitrary: i) (auto simp add: Let_def split: if_splits)

text \<open>
  Claim C7, for a requested count that is not negative. \<^verbatim>\<open>generate_questions\<close> returns a
  list whatever the upstream call did. When the call or the parsing raised, it returns
  the first \<open>n\<close> default questions of the subject; when fewer than \<open>n\<close> questions were
  delivered, it appends default questions up to \<open>n\<close>; when enough were delivered, it
  returns the first \<open>n\<close> of them. The result never has more than \<open>n\<close> questions, and has
  fewer when the delivered questions and the pool (at most one question per subject)
  together are fewer than \<open>n\<close>. The loop of \<^verbatim>\<open>index\<close> only ever asks for a positive count.
\<close>

theorem generate_questions_fallback:
  "(0 \<le> n \<longrightarrow>
      (let pool = (case defaults sj of None \<Rightarrow> [] | Some ds \<Rightarrow> ds)
       in generate_questions Raised sj difficulty n = take (nat n) pool
          \<and> generate_questions (Delivered qs) sj difficulty n
              = take (nat n) (qs @ take (nat n - length qs) pool)
          \<and> (n \<le> int (length qs) \<longrightarrow>
                generate_questions (Delivered qs) sj difficulty n = take (nat n) qs)
          \<and> length (generate_questions Raised sj difficulty n) = min (nat n) (length pool)
          \<and> length (generate_questions (Delivered qs) sj difficulty n)
              = min (nat n) (length qs + length pool)
          \<and> int (length (generate_questions up sj difficulty n)) \<le> n
          \<and> (int (length qs + length pool) < n \<longrightarrow>
                generate_questions (Delivered qs) sj difficulty n = qs @ pool)
          \<and> length pool \<le> 1))
   \<and> (\<forall>(sj', c) \<in> set (fst (index_questions llm difficulty num subjects)). 0 < c)"
proof (intro conjI impI)
  assume n: "0 \<le> n"
  define pool where "pool = (case defaults sj of None \<Rightarrow> [] | Some ds \<Rightarrow> ds)"
  have r: "generate_questions Raised sj difficulty n = take (nat n) pool"
    using n by (simp add: generate_questions_def get_default_questions_def slice_to_def pool_def)
  have d: "generate_questions (Delivered qs) sj difficulty n
             = take (nat n) (qs @ take (nat n - length qs) pool)" for qs
    using n
    by (auto simp add: generate_questions_def get_default_questions_def slice_to_def pool_def
        Let_def nat_diff_distrib')
  have d1: "generate_questions (Delivered qs) sj difficulty n = take (nat n) qs"
    if "n \<le> int (length qs)"
    using that n by (simp add: d)
  have lr: "length (generate_questions Raised sj difficulty n) = min (nat n) (length pool)"
    by (simp add: r)
  have ld: "length (generate_questions (Delivered qs) sj difficulty n)
              = min (nat n) (length qs + length pool)" for qs
    by (simp add: d)
  have le: "int (length (generate_questions up sj difficulty n)) \<le> n"
    using n lr ld by (cases up) auto
  have few: "generate_questions (Delivered qs) sj difficulty n = qs @ pool"
    if "int (length qs + length pool) < n"
    using that n by (simp add: d)
  have p1: "length pool \<le> 1"
    unfolding pool_def by (rule length_defaults)
  show "let pool = (case defaults sj of None \<Rightarrow> [] | Some ds \<Rightarrow> ds)
       in generate_questions Raised sj difficulty n = take (nat n) pool
          \<and> generate_questions (Delivered qs) sj difficulty n
              = take (nat n) (qs @ take (nat n - length qs) pool)
          \<and> (n \<le> int (length qs) \<longrightarrow>
                generate_questions (Delivered qs) sj difficulty n = take (nat n) qs)
          \<and> length (generate_questions Raised sj difficulty n) = min (nat n) (length pool)
          \<and> length (generate_questions (Delivered qs) sj difficulty n)
              = min (nat n) (length qs + length pool)
          \<and> int (length (generate_questions up sj difficulty n)) \<le> n
          \<and> (int (length qs + length pool) < n \<longrightarrow>
                generate_questions (Delivered qs) sj difficulty n = qs @ pool)
          \<and> length pool \<le> 1"
    unfolding Let_def pool_def [symmetric]
    using r d d1 lr ld le few p1 by blast
next
  show "\<forall>(sj', c) \<in> set (fst (index_questions llm difficulty num subjects)). 0 < c"
    using index_loop_counts_positive
    by (auto simp add: index_questions_def)
qed

text \<open>
  With a negative count the slice \<^verbatim>\<open>questions[:num_questions]\<close> drops trailing elements
  instead: two delivered questions and the count \<open>-1\<close> give one question, more than the
  count.
\<close>

theorem generate_questions_negative_count:
  "generate_questions (Delivered [ex_q1, ex_q2]) ''Logical Reasoning'' ''Easy'' (- 1) = [ex_q1]
   \<and> \<not> int (length [ex_q1]) \<le> - 1"
  by (simp add: generate_questions_def slice_to_def)


theorem generate_questions_fallback_witness:
  "(0::int) \<le> 3
   \<and> generate_questions Raised ''Verbal Ability'' ''Easy'' 3 = [default_va]
   \<and> generate_questions (Delivered [ex_q1]) ''Verbal Ability'' ''Easy'' 3 = [ex_q1, default_va]
   \<and> generate_questions (Delivered [ex_q1, ex_q2, ex_q3, ex_q1]) ''Verbal Ability'' ''Easy'' 3
       = [ex_q1, ex_q2, ex_q3]
   \<and> int (length (generate_questions (Delivered [ex_q1]) ''Verbal Ability'' ''Easy'' 3)) \<le> 3
   \<and> fst (index_questions (\<lambda>i sj d n. Raised) ''Easy'' 1 [''Logical Reasoning'', ''Verbal Ability''])
       = [(''Logical Reasoning'', 1)]"
proof -
  have p: "(case defaults ''Verbal Ability'' of None \<Rightarrow> [] | Some ds \<Rightarrow> ds) = [default_va]"
    by (simp add: defaults_def)
  note t = generate_questions_fallback [of 3 "''Verbal Ability''" "''Easy''"]
  have a: "generate_questions Raised ''Verbal Ability'' ''Easy'' 3 = [default_va]"
    using t [of "[ex_q1]" Raised] by (simp add: Let_def p)
  have b: "generate_questions (Delivered [ex_q1]) ''Verbal Ability'' ''Easy'' 3 = [ex_q1, default_va]"
    using t [of "[ex_q1]" Raised] by (simp add: Let_def p)
  have c: "generate_questions (Delivered [ex_q1, ex_q2, ex_q3, ex_q1]) ''Verbal Ability'' ''Easy'' 3
       = [ex_q1, ex_q2, ex_q3]"
    using t [of "[ex_q1, ex_q2, ex_q3, ex_q1]" Raised] by (simp add: Let_def p)
  have d: "int (length (generate_questions (Delivered [ex_q1]) ''Verbal Ability'' ''Easy'' 3)) \<le> 3"
    using t [of "[ex_q1]" "Delivered [ex_q1]"] by (simp add: Let_def p)
  have e: "fst (index_questions (\<lambda>i sj d n. Raised) ''Easy'' 1 [''Logical Reasoning'', ''Verbal Ability''])
       = [(''Logical Reasoning'', 1)]"
    by (simp add: index_questions_def Let_def)
  from a b c d e show ?thesis by simp
qed

section \<open>Finishing a session\<close>

lemma load_logged_in_user_questions:
  "questions s = None \<Longrightarrow> questions (fst (load_logged_in_user e s)) = None"
  by (simp add: load_logged_in_user_def empty_session_def split: option.splits)

lemma quiz_session: "fst (quiz s now) = s"
  by (simp add: quiz_def Let_def split: option.splits)

lemma check_answer_expired: "questions s = None \<Longrightarrow> check_answer s d = (s, Inl SessionExpired)"
  by (simp add: check_answer_def)

lemma results_no_session: "questions s = None \<Longrightarrow> results s now u = (s, Inr RedirectIndex)"
  by (simp add: results_def)

lemma step_no_restart:
  assumes "questions s = None" and "\<not> is_index_post r"
  shows "questions (step e s r) = None"
proof -
  obtain s1 gv where l: "load_logged_in_user e s = (s1, gv)"
    by (cases "load_logged_in_user e s")
  have q: "questions s1 = None"
    using load_logged_in_user_questions [OF assms(1), of e] l by simp
  show ?thesis
    using assms(2) q
    by (cases r)
      (simp_all add: step_def l is_index_post_def quiz_session check_answer_expired
        results_no_session empty_session_def split: option.splits)
qed

lemma run_no_restart:
  assumes "questions s = None" and "\<forall>(e, r) \<in> set rs. \<not> is_index_post r"
  shows "questions (run s rs) = None"
  using assms
proof (induction rs arbitrary: s)
  case Nil
  then show ?case by simp
next
  case (Cons er rs)
  obtain e r where er: "er = (e, r)" by (cases er)
  have "questions (step e s r) = None"
    using Cons.prems er by (simp add: step_no_restart)
  then show ?case
    using Cons.IH [of "step e s r"] Cons.prems(2) er by simp
qed

lemma step_results_clears: "questions (step e s ResultsGet) = None"
proof -
  obtain s1 gv where l: "load_logged_in_user e s = (s1, gv)"
    by (cases "load_logged_in_user e s")
  show ?thesis
  proof (cases "questions s1")
    case None
    then show ?thesis by (simp add: step_def l results_no_session)
  next
    case (Some qs)
    then show ?thesis
      using results_active [OF Some, of "e_now e" "g_user gv"]
      by (auto simp add: step_def l)
  qed
qed

lemma step_index_post_fresh:
  assumes "questions s = None" and "questions (step e s (IndexPost f)) \<noteq> None"
  shows "user_answers (step e s (IndexPost f)) = Some Map.empty
         \<and> score (step e s (IndexPost f)) = Some 0
         \<and> start_time (step e s (IndexPost f)) = Some (e_now e)"
proof -
  obtain s1 gv where l: "load_logged_in_user e s = (s1, gv)"
    by (cases "load_logged_in_user e s")
  have q: "questions s1 = None"
    using load_logged_in_user_questions [OF assms(1), of e] l by simp
  show ?thesis
    using assms(2) q
    by (auto simp add: step_def l index_post_def Let_def split: if_splits num_field.splits)
qed

text \<open>
  Claim C3. When \<^verbatim>\<open>results\<close> runs on a session that has \<^verbatim>\<open>'questions'\<close>, it renders the
  results page and leaves a session without \<^verbatim>\<open>questions\<close>, \<^verbatim>\<open>user_answers\<close>,
  \<^verbatim>\<open>start_time\<close> and \<^verbatim>\<open>timed_test\<close>; after a \<^verbatim>\<open>/results\<close> request the session never has
  \<^verbatim>\<open>questions\<close>. On a session without \<^verbatim>\<open>questions\<close> every \<^verbatim>\<open>check_answer\<close> answers
  "Session expired" and changes nothing. No request other than the form post to
  \<^verbatim>\<open>index\<close> brings \<^verbatim>\<open>questions\<close> back, so after any sequence of such requests
  \<^verbatim>\<open>check_answer\<close> still answers "Session expired"; and when the form post does start a
  session, it starts from scratch, with an empty ledger, score 0 and a new start time.
\<close>

theorem results_finishes_session:
  "(questions s = Some qs \<longrightarrow>
      (let s' = fst (results s now u)
       in questions s' = None \<and> user_answers s' = None \<and> start_time s' = None
          \<and> timed_test s' = None
          \<and> (\<exists>sc rd. snd (results s now u) = Inr (ResultsPage sc (int (length qs)) rd))
          \<and> check_answer s' d = (s', Inl SessionExpired)))
   \<and> questions (step e s ResultsGet) = None
   \<and> (questions s = None \<longrightarrow> check_answer s d = (s, Inl SessionExpired))
   \<and> (questions s = None \<and> \<not> is_index_post r \<longrightarrow> questions (step e s r) = None)
   \<and> (questions s = None \<and> (\<forall>(e', r') \<in> set rs. \<not> is_index_post r') \<longrightarrow>
        questions (run s rs) = None
        \<and> check_answer (run s rs) d = (run s rs, Inl SessionExpired))
   \<and> (questions s = None \<and> questions (step e s (IndexPost f)) \<noteq> None \<longrightarrow>
        user_answers (step e s (IndexPost f)) = Some Map.empty
        \<and> score (step e s (IndexPost f)) = Some 0
        \<and> start_time (step e s (IndexPost f)) = Some (e_now e))"
proof (intro conjI impI)
  assume q: "questions s = Some qs"
  obtain rd where r: "results s now u =
      (s\<lparr>questions := None, user_answers := None, start_time := None, timed_test := None\<rparr>,
       Inr (ResultsPage
             (correct_count (results_loop (case user_answers s of None \<Rightarrow> Map.empty | Some m \<Rightarrow> m) 0 qs tally0))
             (int (length qs)) rd))"
    using results_active [OF q, of now u] by blast
  show "let s' = fst (results s now u)
       in questions s' = None \<and> user_answers s' = None \<and> start_time s' = None
          \<and> timed_test s' = None
          \<and> (\<exists>sc rd. snd (results s now u) = Inr (ResultsPage sc (int (length qs)) rd))
          \<and> check_answer s' d = (s', Inl SessionExpired)"
    by (simp add: r Let_def check_answer_expired)
next
  show "questions (step e s ResultsGet) = None"
    by (rule step_results_clears)
next
  assume "questions s = None"
  then show "check_answer s d = (s, Inl SessionExpired)"
    by (rule check_answer_expired)
next
  assume "questions s = None \<and> \<not> is_index_post r"
  then show "questions (step e s r) = None"
    by (simp add: step_no_restart)
next
  assume a: "questions s = None \<and> (\<forall>(e', r') \<in> set rs. \<not> is_index_post r')"
  then show n: "questions (run s rs) = None"
    using run_no_restart [of s rs] by simp
  then show "check_answer (run s rs) d = (run s rs, Inl SessionExpired)"
    by (rule check_answer_expired)
next
  assume b: "questions s = None \<and> questions (step e s (IndexPost f)) \<noteq> None"
  then have *: "user_answers (step e s (IndexPost f)) = Some Map.empty
         \<and> score (step e s (IndexPost f)) = Some 0
         \<and> start_time (step e s (IndexPost f)) = Some (e_now e)"
    using step_index_post_fresh [of s e f] by simp
  from * show "user_answers (step e s (IndexPost f)) = Some Map.empty" by simp
  from * show "score (step e s (IndexPost f)) = Some 0" by simp
  from * show "start_time (step e s (IndexPost f)) = Some (e_now e)" by simp
qed


theorem results_finishes_session_witness:
  "questions ex_session = Some [ex_q1, ex_q2, ex_q3]
   \<and> questions (fst (results ex_session 1000 None)) = None
   \<and> user_answers (fst (results ex_session 1000 None)) = None
   \<and> start_time (fst (results ex_session 1000 None)) = None
   \<and> check_answer (fst (results ex_session 1000 None))
         \<lparr>selected_option = Some ''A'', question_index = Some 0\<rparr>
       = (fst (results ex_session 1000 None), Inl SessionExpired)
   \<and> questions (run (fst (results ex_session 1000 None))
         [(ex_env, QuizGet),
          (ex_env, CheckAnswerPost \<lparr>selected_option = Some ''A'', question_index = Some 0\<rparr>),
          (ex_env, ResultsGet)]) = None
   \<and> questions (step ex_env (fst (results ex_session 1000 None))
         (IndexPost \<lparr>f_subjects = [''Logical Reasoning''], f_difficulty = None,
                     f_num_questions = Parsed 1, f_timed_test = None\<rparr>))
       = Some [tag_question ''Logical Reasoning'' default_lr]
   \<and> user_answers (step ex_env (fst (results ex_session 1000 None))
         (IndexPost \<lparr>f_subjects = [''Logical Reasoning''], f_difficulty = None,
                     f_num_questions = Parsed 1, f_timed_test = None\<rparr>))
       = Some Map.empty"
proof -
  define d where "d = \<lparr>selected_option = Some ''A'', question_index = Some 0\<rparr>"
  define rs where "rs = [(ex_env, QuizGet), (ex_env, CheckAnswerPost d), (ex_env, ResultsGet)]"
  define f where "f = \<lparr>f_subjects = [''Logical Reasoning''], f_difficulty = None,
                     f_num_questions = Parsed 1, f_timed_test = None\<rparr>"
  define s' where "s' = fst (results ex_session 1000 None)"
  have q: "questions ex_session = Some [ex_q1, ex_q2, ex_q3]"
    by (simp add: ex_session_def)
  have a: "questions s' = None \<and> user_answers s' = None \<and> start_time s' = None
           \<and> check_answer s' d = (s', Inl SessionExpired)"
    using results_finishes_session [of ex_session "[ex_q1, ex_q2, ex_q3]" 1000 None d ex_env QuizGet rs f] q
    by (simp add: Let_def s'_def)
  have n: "\<forall>(e', r') \<in> set rs. \<not> is_index_post r'"
    by (simp add: rs_def is_index_post_def)
  note t = results_finishes_session [of s' "[]" 1000 None d ex_env QuizGet rs f]
  have b: "questions (run s' rs) = None"
    using t a n by simp
  have g: "guest_id s' = Some ''guest_1000''" "user_id s' = None"
    using results_active [OF q, of 1000 None] by (auto simp add: s'_def ex_session_def)
  have c: "questions (step ex_env s' (IndexPost f)) = Some [tag_question ''Logical Reasoning'' default_lr]"
    using g
    by (simp add: step_def load_logged_in_user_def index_post_def truthy_def f_def ex_env_def
        index_questions_def Let_def generate_questions_def get_default_questions_def
        defaults_def slice_to_def)
  have e: "user_answers (step ex_env s' (IndexPost f)) = Some Map.empty"
    using t a c by simp
  from q a b c e show ?thesis
    unfolding d_def rs_def f_def s'_def by simp
qed

section \<open>The keys of a session come and go together\<close>

lemma keys_together_empty: "session_keys_together empty_session"
  by (simp add: session_keys_together_def empty_session_def)

lemma keys_together_load:
  "session_keys_together s \<Longrightarrow> session_keys_together (fst (load_logged_in_user e s))"
  by (simp add: load_logged_in_user_def keys_together_empty split: option.splits)

lemma keys_together_check_answer:
  "session_keys_together s \<Longrightarrow> session_keys_together (fst (check_answer s d))"
  by (auto simp add: check_answer_def session_keys_together_def Let_def split: option.splits)

lemma keys_together_results:
  "session_keys_together (fst (results s now u))"
proof (cases "questions s")
  case None
  then show ?thesis by (simp add: results_no_session session_keys_together_def)
next
  case (Some qs)
  then show ?thesis
    using results_active [OF Some, of now u] by (auto simp add: session_keys_together_def)
qed

lemma keys_together_index_post:
  "session_keys_together s \<Longrightarrow> session_keys_together (fst (index_post e gv s f))"
  by (auto simp add: index_post_def session_keys_together_def Let_def split: num_field.splits)

lemma keys_together_user_id:
  "session_keys_together s \<Longrightarrow> session_keys_together (s\<lparr>user_id := v\<rparr>)"
  by (simp add: session_keys_together_def split: option.splits)

lemma keys_together_guest: "session_keys_together (empty_session\<lparr>guest_id := v\<rparr>)"
  by (simp add: session_keys_together_def empty_session_def)

lemma keys_together_step:
  assumes "session_keys_together s"
  shows "session_keys_together (step e s r)"
proof -
  obtain s1 gv where l: "load_logged_in_user e s = (s1, gv)"
    by (cases "load_logged_in_user e s")
  have k: "session_keys_together s1"
    using keys_together_load [OF assms, of e] l by simp
  show ?thesis
    using k
    by (cases r)
      (simp_all add: step_def l quiz_session keys_together_check_answer keys_together_results
        keys_together_index_post keys_together_user_id keys_together_empty keys_together_guest
        split: option.splits)
qed

lemma keys_together_run:
  "session_keys_together s \<Longrightarrow> session_keys_together (run s rs)"
proof (induction rs arbitrary: s)
  case Nil
  then show ?case by simp
next
  case (Cons er rs)
  obtain e r where er: "er = (e, r)" by (cases er)
  show ?case
    using Cons.IH [of "step e s r"] keys_together_step [OF Cons.prems, of e r] er by simp
qed

text \<open>
  Every session reached from the empty session by requests of the report-generator
  application that has \<^verbatim>\<open>'questions'\<close> also has \<^verbatim>\<open>'user_answers'\<close>, \<^verbatim>\<open>'start_time'\<close> and
  \<^verbatim>\<open>'timed_test'\<close>: the sessions called active above are the ones the application can be
  in. On such a session \<^verbatim>\<open>check_answer\<close> with a valid index answers with its JSON
  response; the \<^verbatim>\<open>KeyError\<close> of a missing ledger cannot occur.
\<close>

theorem reachable_session_check_answer:
  assumes "questions (run empty_session rs) = Some qs"
    and "question_index d = Some i" and "0 \<le> i" and "i < int (length qs)"
  shows "\<exists>ua. user_answers (run empty_session rs) = Some ua
           \<and> start_time (run empty_session rs) \<noteq> None
           \<and> timed_test (run empty_session rs) \<noteq> None
           \<and> snd (check_answer (run empty_session rs) d) =
                Inr \<lparr>r_is_correct = (selected_option d = Some (correct_answer (qs ! nat i))),
                     r_correct_answer = correct_answer (qs ! nat i),
                     r_solution = (case solution (qs ! nat i) of
                                     None \<Rightarrow> ''Solution not available.'' | Some sol \<Rightarrow> sol)\<rparr>"
proof -
  have "session_keys_together (run empty_session rs)"
    by (rule keys_together_run) (rule keys_together_empty)
  then obtain ua where ua: "user_answers (run empty_session rs) = Some ua"
    and st: "start_time (run empty_session rs) \<noteq> None"
    and tt: "timed_test (run empty_session rs) \<noteq> None"
    using assms(1) by (auto simp add: session_keys_together_def)
  show ?thesis
    using check_answer_valid [OF assms(1) ua assms(2) assms(3) assms(4)] ua st tt by simp
qed

lemma ex_run:
  "run empty_session [(ex_env, ContinueAsGuest), (ex_env, IndexPost ex_form)] =
     \<lparr>questions = Some [tag_question ''Logical Reasoning'' default_lr], score = Some 0,
      start_time = Some 1000, timed_test = Some False, user_answers = Some Map.empty,
      user_id = None, guest_id = Some (''guest_'' @ str 1000)\<rparr>"
  by (simp add: step_def load_logged_in_user_def index_post_def truthy_def ex_form_def ex_env_def
      index_questions_def Let_def generate_questions_def get_default_questions_def
      defaults_def slice_to_def empty_session_def py_int_def)

theorem reachable_session_check_answer_witness:
  "questions (run empty_session [(ex_env, ContinueAsGuest), (ex_env, IndexPost ex_form)])
     = Some [tag_question ''Logical Reasoning'' default_lr]
   \<and> snd (check_answer (run empty_session [(ex_env, ContinueAsGuest), (ex_env, IndexPost ex_form)])
            \<lparr>selected_option = Some ''A'', question_index = Some 0\<rparr>)
       = Inr \<lparr>r_is_correct = True, r_correct_answer = ''A'',
              r_solution = ''This is a case of transitive relation. If A implies B and B implies C, then A implies C. So, the statement is True.''\<rparr>"
proof -
  have q: "questions (run empty_session [(ex_env, ContinueAsGuest), (ex_env, IndexPost ex_form)])
     = Some [tag_question ''Logical Reasoning'' default_lr]"
    by (simp only: ex_run) simp
  have i: "question_index \<lparr>selected_option = Some ''A'', question_index = Some 0\<rparr> = Some 0"
    "(0::int) \<le> 0" "(0::int) < int (length [tag_question ''Logical Reasoning'' default_lr])"
    by simp_all
  show ?thesis
    using reachable_session_check_answer [OF q i] q
    by (simp add: tag_question_def default_lr_def)
qed

end
